theory Spec2Isabelle
  imports Main "HOL-Library.Sublist"
begin

section \<open>The GratisDNS client of certbot-dns-gratisdns\<close>

text \<open>
  A shallow embedding of the class \<^verbatim>\<open>_GratisDnsClient\<close> of
  \<^verbatim>\<open>certbot_dns_gratisdns/dns_gratisdns.py\<close>. Python strings are \<open>string\<close>,
  Python exceptions are values of the type \<open>error\<close>, and the HTTP session is a log of
  the requests sent so far together with a server that answers each request.

  What the model leaves to its parameters: the one-time code is a field of the client
  (the value \<^verbatim>\<open>pyotp\<close> computes), and every request gets a response text from the
  server (a failure inside \<^verbatim>\<open>requests\<close>, such as a connection error, is not a
  case of the model). The \<^verbatim>\<open>assert\<close> statements are executed, as they are unless
  the interpreter runs with optimisation. The conversion \<^verbatim>\<open>int\<close> is the one of
  CPython 3.11 and later with its default setting: it refuses a string of more than 4300
  digits.
\<close>

subsection \<open>Python string operations used by the client\<close>

text \<open>\<^verbatim>\<open>sub in s\<close>: \<open>sub\<close> occurs in \<open>s\<close> as a contiguous substring.\<close>

fun py_in :: "string \<Rightarrow> string \<Rightarrow> bool" where
  "py_in sub [] = (sub = [])"
| "py_in sub (c # cs) = (prefix sub (c # cs) \<or> py_in sub cs)"

text \<open>\<^verbatim>\<open>s.endswith(suf)\<close>.\<close>

definition endswith :: "string \<Rightarrow> string \<Rightarrow> bool" where
  "endswith s suf = (length suf \<le> length s \<and> drop (length s - length suf) s = suf)"

text \<open>\<^verbatim>\<open>s.rfind(sep)\<close>: the highest index at which \<open>sep\<close> occurs in \<open>s\<close>;
  \<open>None\<close> stands for Python's \<open>-1\<close>.\<close>

fun rfind :: "string \<Rightarrow> string \<Rightarrow> nat option" where
  "rfind [] sep = (if sep = [] then Some 0 else None)"
| "rfind (c # cs) sep =
     (case rfind cs sep of
        Some i \<Rightarrow> Some (Suc i)
      | None \<Rightarrow> if prefix sep (c # cs) then Some 0 else None)"

subsection \<open>Exceptions\<close>

text \<open>
  The client raises the built-in \<^verbatim>\<open>Exception\<close> with a message, the \<^verbatim>\<open>assert\<close>
  statement raises \<^verbatim>\<open>AssertionError\<close>, and \<^verbatim>\<open>str.rpartition\<close> (on an empty
  separator) and \<^verbatim>\<open>int\<close> (on too long a digit string) raise \<^verbatim>\<open>ValueError\<close>.
\<close>

datatype error = Exception string | AssertionError | ValueError

text \<open>\<^verbatim>\<open>s.rpartition(sep)\<close>: split at the last occurrence of \<open>sep\<close>.\<close>

definition rpartition :: "string \<Rightarrow> string \<Rightarrow> error + (string \<times> string \<times> string)" where
  "rpartition s sep =
     (if sep = [] then Inl ValueError
      else case rfind s sep of
        None \<Rightarrow> Inr ([], [], s)
      | Some i \<Rightarrow> Inr (take i s, sep, drop (i + length sep) s))"

subsection \<open>Decimal numbers: \<^verbatim>\<open>int(...)\<close> and \<^verbatim>\<open>str(...)\<close>\<close>

definition is_digit :: "char \<Rightarrow> bool" where
  "is_digit c = (c \<in> set ''0123456789'')"

text \<open>The value of an ASCII digit: its code minus the code of \<open>0\<close>.\<close>

definition digit_val :: "char \<Rightarrow> int" where
  "digit_val c = of_char c - of_char CHR ''0''"

text \<open>The number that a string of ASCII digits denotes in base ten.\<close>

definition int_of_digits :: "string \<Rightarrow> int" where
  "int_of_digits ds = foldl (\<lambda>a c. 10 * a + digit_val c) 0 ds"

text \<open>
  \<^verbatim>\<open>int(ds)\<close> for a string of ASCII digits, the only strings the client converts
  (group 1 of the pattern): the empty string raises \<^verbatim>\<open>ValueError\<close>, and so does a
  string with more digits than \<^verbatim>\<open>sys.get_int_max_str_digits()\<close>, which is 4300 by
  default.
\<close>

definition int_max_str_digits :: nat where
  "int_max_str_digits = 4300"

definition py_int :: "string \<Rightarrow> error + int" where
  "py_int ds =
     (if ds = [] \<or> int_max_str_digits < length ds then Inl ValueError
      else Inr (int_of_digits ds))"

definition digit_char :: "nat \<Rightarrow> char" where
  "digit_char n = ''0123456789'' ! (n mod 10)"

fun str_nat :: "nat \<Rightarrow> string" where
  "str_nat n = (if n < 10 then [digit_char n] else str_nat (n div 10) @ [digit_char n])"

declare str_nat.simps [simp del]

text \<open>\<^verbatim>\<open>str(i)\<close> for an integer.\<close>

definition str_int :: "int \<Rightarrow> string" where
  "str_int i = (if i < 0 then CHR ''-'' # str_nat (nat (- i)) else str_nat (nat i))"

subsection \<open>HTTP requests and the session\<close>

datatype http_method = GET | POST

text \<open>A value of a form field: the client passes strings and, for the TTL, an integer.\<close>

datatype pyval = PyStr string | PyInt int

text \<open>
  One call of \<^verbatim>\<open>session.get\<close> or \<^verbatim>\<open>session.post\<close>: the method, the URL,
  the \<^verbatim>\<open>params\<close> dictionary and the \<^verbatim>\<open>data\<close> dictionary, both in insertion
  order.
\<close>

record request =
  meth :: http_method
  url :: string
  params :: "(string \<times> string) list"
  data :: "(string \<times> pyval) list"

text \<open>
  The provider is a function from the requests the session has sent so far and the
  current request to the text of the response. The session is the log of requests sent.
\<close>

type_synonym server = "request list \<Rightarrow> request \<Rightarrow> string"

definition session_request :: "server \<Rightarrow> request list \<Rightarrow> request \<Rightarrow> string \<times> request list" where
  "session_request srv lg r = (srv lg r, lg @ [r])"

definition GRATISDNS_API :: string where
  "GRATISDNS_API = ''https://admin.gratisdns.com''"

text \<open>
  The fields of \<^verbatim>\<open>_GratisDnsClient\<close>. The field \<open>totp_now\<close> is the code that
  \<^verbatim>\<open>self.totp.now()\<close> yields when \<^verbatim>\<open>login\<close> runs.
\<close>

record client =
  username :: string
  password :: string
  totp_now :: string
  ttl :: int

subsection \<open>The requests the client builds\<close>

definition login_post :: "client \<Rightarrow> request" where
  "login_post c =
     \<lparr>meth = POST, url = GRATISDNS_API, params = [],
      data = [(''login'', PyStr (username c)), (''password'', PyStr (password c)),
              (''action'', PyStr ''logmein''), (''oauth'', PyStr (totp_now c))]\<rparr>"

definition profile_get :: request where
  "profile_get =
     \<lparr>meth = GET, url = GRATISDNS_API, params = [(''action'', ''usersetup_user'')], data = []\<rparr>"

definition domains_get :: request where
  "domains_get =
     \<lparr>meth = GET, url = GRATISDNS_API, params = [(''action'', ''dns_primarydns'')], data = []\<rparr>"

definition add_post :: "client \<Rightarrow> string \<Rightarrow> string \<Rightarrow> string \<Rightarrow> request" where
  "add_post c full_domain sub_domain validation =
     \<lparr>meth = POST, url = GRATISDNS_API,
      params = [(''action'', ''dns_primary_record_add_txt''), (''user_domain'', full_domain)],
      data = [(''action'', PyStr ''dns_primary_record_added_txt''), (''name'', PyStr sub_domain),
              (''ttl'', PyInt (ttl c)), (''txtdata'', PyStr validation),
              (''user_domain'', PyStr full_domain)]\<rparr>"

definition listing_get :: "string \<Rightarrow> request" where
  "listing_get full_domain =
     \<lparr>meth = GET, url = GRATISDNS_API,
      params = [(''action'', ''dns_primary_changeDNSsetup''), (''user_domain'', full_domain)],
      data = []\<rparr>"

definition delete_get :: "string \<Rightarrow> int \<Rightarrow> request" where
  "delete_get full_domain record_id =
     \<lparr>meth = GET, url = GRATISDNS_API,
      params = [(''action'', ''dns_primary_delete_txt''), (''id'', str_int record_id),
                (''user_domain'', full_domain)],
      data = []\<rparr>"

subsection \<open>The messages of the exceptions raised\<close>

definition login_failed :: "string \<Rightarrow> error" where
  "login_failed user = Exception (''GratisDNS login failed for '' @ user)"

definition domain_not_found :: "string \<Rightarrow> string \<Rightarrow> error" where
  "domain_not_found full_domain user =
     Exception (''Did not find the domain '' @ full_domain
                @ '' in the GratisDNS account for '' @ user)"

definition regex_failed :: error where
  "regex_failed = Exception ''Regex match failed''"

definition not_deleted :: error where
  "not_deleted = Exception ''TXT record was not deleted!''"

subsection \<open>\<^verbatim>\<open>login\<close> and \<^verbatim>\<open>check_domain\<close>\<close>

definition login :: "client \<Rightarrow> server \<Rightarrow> request list \<Rightarrow> (error + unit) \<times> request list" where
  "login c srv lg =
     (let (post_response, lg1) = session_request srv lg (login_post c);
          (response, lg2) = session_request srv lg1 profile_get
      in if \<not> py_in (username c) response then (Inl (login_failed (username c)), lg2)
         else (Inr (), lg2))"

definition check_domain ::
  "client \<Rightarrow> server \<Rightarrow> request list \<Rightarrow> string \<Rightarrow> (error + unit) \<times> request list" where
  "check_domain c srv lg full_domain =
     (let (response, lg1) = session_request srv lg domains_get
      in if \<not> py_in full_domain response
         then (Inl (domain_not_found full_domain (username c)), lg1)
         else (Inr (), lg1))"

subsection \<open>\<^verbatim>\<open>add_txt_record\<close>\<close>

definition add_txt_record ::
  "client \<Rightarrow> server \<Rightarrow> request list \<Rightarrow> string \<Rightarrow> string \<Rightarrow> string
     \<Rightarrow> (error + unit) \<times> request list" where
  "add_txt_record c srv lg full_domain validation_domain_name validation =
     (case login c srv lg of
        (Inl e, lg1) \<Rightarrow> (Inl e, lg1)
      | (Inr _, lg1) \<Rightarrow>
     (case check_domain c srv lg1 full_domain of
        (Inl e, lg2) \<Rightarrow> (Inl e, lg2)
      | (Inr _, lg2) \<Rightarrow>
     if \<not> endswith validation_domain_name (''.'' @ full_domain) then (Inl AssertionError, lg2)
     else
     (case rpartition validation_domain_name (''.'' @ full_domain) of
        Inl e \<Rightarrow> (Inl e, lg2)
      | Inr (sub_domain, _, _) \<Rightarrow>
          (let (response, lg3) =
                 session_request srv lg2 (add_post c full_domain sub_domain validation)
           in (Inr (), lg3)))))"

subsection \<open>The regular expression of \<^verbatim>\<open>get_txt_record_id\<close>\<close>

text \<open>
  The pattern is
  \<^verbatim>\<open>>VALUE.*?action=dns_primary_delete_txt(?:&|&amp;)id=([0-9]+)\<close>
  with \<^verbatim>\<open>VALUE\<close> the escaped (hence literal) record value, searched with the flag
  \<^verbatim>\<open>re.S\<close>, under which the dot matches every character. The functions below
  follow the backtracking order of \<^verbatim>\<open>re.search\<close>: leftmost start, the lazy
  \<^verbatim>\<open>.*?\<close> as short as possible, the first alternative first, the digits greedy.
  The result is group 1 of the match.
\<close>

definition delete_action :: string where
  "delete_action = ''action=dns_primary_delete_txt''"

text \<open>\<^verbatim>\<open>id=([0-9]+)\<close> at the start of \<open>s\<close>.\<close>

definition match_id :: "string \<Rightarrow> string option" where
  "match_id s =
     (if prefix ''id='' s
      then (let g = takeWhile is_digit (drop 3 s) in if g = [] then None else Some g)
      else None)"

text \<open>\<^verbatim>\<open>action=dns_primary_delete_txt(?:&|&amp;)id=([0-9]+)\<close> at the start of \<open>s\<close>.\<close>

definition match_link :: "string \<Rightarrow> string option" where
  "match_link s =
     (if prefix delete_action s
      then (let r = drop (length delete_action) s in
            case (if prefix ''&'' r then match_id (drop 1 r) else None) of
              Some g \<Rightarrow> Some g
            | None \<Rightarrow> if prefix ''&amp;'' r then match_id (drop 5 r) else None)
      else None)"

text \<open>\<^verbatim>\<open>.*?\<close> followed by the link: the first position of \<open>s\<close> where the link matches.\<close>

fun lazy_dot_link :: "string \<Rightarrow> string option" where
  "lazy_dot_link [] = match_link []"
| "lazy_dot_link (c # cs) =
     (case match_link (c # cs) of Some g \<Rightarrow> Some g | None \<Rightarrow> lazy_dot_link cs)"

text \<open>The whole pattern at the start of \<open>s\<close>.\<close>

definition match_here :: "string \<Rightarrow> string \<Rightarrow> string option" where
  "match_here v s =
     (if prefix (''>'' @ v) s then lazy_dot_link (drop (length (''>'' @ v)) s) else None)"

text \<open>\<^verbatim>\<open>re.search\<close>: the match at the leftmost position that has one.\<close>

fun re_search :: "string \<Rightarrow> string \<Rightarrow> string option" where
  "re_search v [] = match_here v []"
| "re_search v (c # cs) =
     (case match_here v (c # cs) of Some g \<Rightarrow> Some g | None \<Rightarrow> re_search v cs)"

subsection \<open>\<^verbatim>\<open>get_txt_record_id\<close> and \<^verbatim>\<open>del_txt_record\<close>\<close>

text \<open>The debugging \<^verbatim>\<open>print\<close> before the exception writes to standard output only.\<close>

definition get_txt_record_id ::
  "server \<Rightarrow> request list \<Rightarrow> string \<Rightarrow> string \<Rightarrow> (error + int option) \<times> request list" where
  "get_txt_record_id srv lg full_domain validation =
     (let (response, lg1) = session_request srv lg (listing_get full_domain)
      in if \<not> py_in validation response then (Inr None, lg1)
         else (case re_search validation response of
                 None \<Rightarrow> (Inl regex_failed, lg1)
               | Some g \<Rightarrow>
                   (case py_int g of
                      Inl e \<Rightarrow> (Inl e, lg1)
                    | Inr record_id \<Rightarrow> (Inr (Some record_id), lg1))))"

definition success_marker :: string where
  "success_marker = ''Record was deleted''"

definition del_txt_record ::
  "client \<Rightarrow> server \<Rightarrow> request list \<Rightarrow> string \<Rightarrow> string \<Rightarrow> string
     \<Rightarrow> (error + unit) \<times> request list" where
  "del_txt_record c srv lg full_domain validation_domain_name validation =
     (case login c srv lg of
        (Inl e, lg1) \<Rightarrow> (Inl e, lg1)
      | (Inr _, lg1) \<Rightarrow>
     (case check_domain c srv lg1 full_domain of
        (Inl e, lg2) \<Rightarrow> (Inl e, lg2)
      | (Inr _, lg2) \<Rightarrow>
     if \<not> endswith validation_domain_name (''.'' @ full_domain) then (Inl AssertionError, lg2)
     else
     (case get_txt_record_id srv lg2 full_domain validation of
        (Inl e, lg3) \<Rightarrow> (Inl e, lg3)
      | (Inr None, lg3) \<Rightarrow> (Inr (), lg3)
      | (Inr (Some record_id), lg3) \<Rightarrow>
          (let (response, lg4) = session_request srv lg3 (delete_get full_domain record_id)
           in if \<not> py_in success_marker response then (Inl not_deleted, lg4)
              else (Inr (), lg4)))))"

subsection \<open>A provider for the examples\<close>

text \<open>
  A provider that accepts the login of \<open>alice\<close>, lists \<open>example.com\<close>, shows one TXT
  record with the value \<open>abc123\<close> and the id 99, and confirms every deletion.
\<close>

definition demo_client :: client where
  "demo_client = \<lparr>username = ''alice'', password = ''hunter2'', totp_now = ''123456'', ttl = 60\<rparr>"

definition demo_listing :: string where
  "demo_listing = ''<td>abc123</td> <a href=\"?action=dns_primary_delete_txt&amp;id=99\">''"

definition demo_server :: server where
  "demo_server lg r =
     (if r = profile_get then ''user alice''
      else if r = domains_get then ''example.com''
      else if r = listing_get ''example.com'' then demo_listing
      else if meth r = GET \<and> map_of (params r) ''action'' = Some ''dns_primary_delete_txt''
      then ''Record was deleted''
      else [])"

subsection \<open>Further definitions for the properties and the examples\<close>

text \<open>
  The responses that an operation started with the log \<open>lg\<close> receives: to the profile
  request of \<^verbatim>\<open>login\<close>, to the request of \<^verbatim>\<open>check_domain\<close>, to the listing
  request and to the deletion request.
\<close>

definition profile_response :: "client \<Rightarrow> server \<Rightarrow> request list \<Rightarrow> string" where
  "profile_response c srv lg = srv (lg @ [login_post c]) profile_get"

definition domains_response :: "client \<Rightarrow> server \<Rightarrow> request list \<Rightarrow> string" where
  "domains_response c srv lg = srv (lg @ [login_post c, profile_get]) domains_get"

definition listing_response :: "client \<Rightarrow> server \<Rightarrow> request list \<Rightarrow> string \<Rightarrow> string" where
  "listing_response c srv lg full_domain =
     srv (lg @ [login_post c, profile_get, domains_get]) (listing_get full_domain)"

definition delete_response ::
  "client \<Rightarrow> server \<Rightarrow> request list \<Rightarrow> string \<Rightarrow> int \<Rightarrow> string" where
  "delete_response c srv lg full_domain record_id =
     srv (lg @ [login_post c, profile_get, domains_get, listing_get full_domain])
       (delete_get full_domain record_id)"

text \<open>The example provider, except that it answers every deletion request with an error
  text.\<close>

definition refusing_server :: server where
  "refusing_server lg r =
     (if meth r = GET \<and> map_of (params r) ''action'' = Some ''dns_primary_delete_txt''
      then ''Error: no such record'' else demo_server lg r)"

text \<open>The requests that \<^verbatim>\<open>add_txt_record\<close> posts to add a record.\<close>

definition is_add_request :: "request \<Rightarrow> bool" where
  "is_add_request r =
     (meth r = POST \<and> map_of (params r) ''action'' = Some ''dns_primary_record_add_txt'')"

text \<open>A client whose username the example provider does not show.\<close>

definition other_client :: client where
  "other_client = \<lparr>username = ''mallory'', password = ''guess'', totp_now = ''000000'', ttl = 60\<rparr>"

text \<open>The example provider, except that it answers every add request with an error text.\<close>

definition silent_add_server :: server where
  "silent_add_server lg r =
     (if is_add_request r then ''Error: the record was not added'' else demo_server lg r)"

text \<open>
  The pattern, stated without the search: the page \<open>body\<close> contains the value \<open>v\<close>
  preceded by \<open>>\<close> and followed, after any text, by a deletion link whose id starts
  with the digits \<open>ds\<close>.
\<close>

definition link_after :: "string \<Rightarrow> string \<Rightarrow> string \<Rightarrow> bool" where
  "link_after v body ds =
     (\<exists>pre mid sep post.
        body = pre @ ''>'' @ v @ mid @ delete_action @ sep @ ''id='' @ ds @ post
        \<and> (sep = ''&'' \<or> sep = ''&amp;'') \<and> ds \<noteq> [] \<and> list_all is_digit ds)"

text \<open>No occurrence of \<open>p\<close> in \<open>s\<close> starts at a position before \<open>n\<close>.\<close>

definition none_before :: "string \<Rightarrow> string \<Rightarrow> nat \<Rightarrow> bool" where
  "none_before p s n = list_all (\<lambda>i. \<not> prefix p (drop i s)) [0..<n]"

text \<open>
  A deletion link stands at the start of \<open>s\<close>: the deletion action, \<open>&\<close> or
  \<open>&amp;\<close>, \<open>id=\<close> and at least one digit.
\<close>

definition link_at :: "string \<Rightarrow> bool" where
  "link_at s =
     (\<exists>sep ds post. s = delete_action @ sep @ ''id='' @ ds @ post
        \<and> (sep = ''&'' \<or> sep = ''&amp;'') \<and> ds \<noteq> [] \<and> list_all is_digit ds)"

text \<open>No deletion link in \<open>s\<close> starts at a position before \<open>n\<close>.\<close>

definition no_link_before :: "string \<Rightarrow> nat \<Rightarrow> bool" where
  "no_link_before s n = list_all (\<lambda>k. \<not> link_at (drop k s)) [0..<n]"

text \<open>
  The page \<open>body\<close> splits at the first deletion link after the first occurrence of the
  value \<open>v\<close> preceded by \<open>>\<close>: \<open>pre\<close> is the text before that occurrence,
  \<open>mid\<close> the text between the value and the link, \<open>sep\<close> the separator of the link,
  \<open>ds\<close> the complete run of digits of its id and \<open>post\<close> the rest of the page.
\<close>

definition first_link ::
  "string \<Rightarrow> string \<Rightarrow> string \<Rightarrow> string \<Rightarrow> string \<Rightarrow> string \<Rightarrow> string \<Rightarrow> bool" where
  "first_link v body pre mid sep ds post =
     (body = pre @ ''>'' @ v @ mid @ delete_action @ sep @ ''id='' @ ds @ post
      \<and> (sep = ''&'' \<or> sep = ''&amp;'') \<and> ds \<noteq> [] \<and> list_all is_digit ds
      \<and> none_before (''>'' @ v) body (length pre)
      \<and> no_link_before (mid @ delete_action @ sep @ ''id='' @ ds @ post) (length mid)
      \<and> (post = [] \<or> \<not> is_digit (hd post)))"

text \<open>The pattern matches somewhere in the page.\<close>

definition pattern_matches :: "string \<Rightarrow> string \<Rightarrow> bool" where
  "pattern_matches v body = (\<exists>ds. link_after v body ds)"

text \<open>A provider that answers every request with the same page.\<close>

definition fixed_server :: "string \<Rightarrow> server" where
  "fixed_server body lg r = body"

text \<open>A listing page of two lines with the value \<open>TOKENVALUE\<close> and the id 12345.\<close>

definition token_listing :: string where
  "token_listing = ''<td>TOKENVALUE</td>'' @ [CHR 0x0A]
     @ ''<a href=\"?action=dns_primary_delete_txt&id=12345\">delete</a>''"

text \<open>
  A listing page with two records: the value of the first, \<open>abc1234\<close> with the id 1,
  begins with the value of the second, \<open>abc123\<close> with the id 2.
\<close>

definition shadowed_listing :: string where
  "shadowed_listing =
     ''<td>abc1234</td> <a href=\"?action=dns_primary_delete_txt&id=1\"> ''
     @ ''<td>abc123</td> <a href=\"?action=dns_primary_delete_txt&id=2\">''"

text \<open>A listing page where the value is followed by a deletion link but not preceded
  by \<open>>\<close>.\<close>

definition unanchored_listing :: string where
  "unanchored_listing = ''data=abc123 <a href=\"?action=dns_primary_delete_txt&id=7\">''"

text \<open>A listing page where the value is present but the link has another action.\<close>

definition changed_listing :: string where
  "changed_listing = ''<td>abc123</td> <a href=\"?action=remove_txt&id=7\">''"

section \<open>Properties\<close>

subsection \<open>Facts about the string operations\<close>

lemma py_in_iff: "py_in sub s \<longleftrightarrow> (\<exists>p q. s = p @ sub @ q)"
proof (induction s)
  case Nil
  then show ?case by auto
next
  case (Cons c cs)
  show ?case
  proof
    assume "py_in sub (c # cs)"
    then consider "prefix sub (c # cs)" | "py_in sub cs" by auto
    then show "\<exists>p q. c # cs = p @ sub @ q"
    proof cases
      case 1
      then obtain q where "c # cs = sub @ q" by (auto simp: prefix_def)
      then have "c # cs = [] @ sub @ q" by simp
      then show ?thesis by blast
    next
      case 2
      then obtain p q where "cs = p @ sub @ q" using Cons.IH by blast
      then have "c # cs = (c # p) @ sub @ q" by simp
      then show ?thesis by blast
    qed
  next
    assume "\<exists>p q. c # cs = p @ sub @ q"
    then obtain p q where pq: "c # cs = p @ sub @ q" by blast
    show "py_in sub (c # cs)"
    proof (cases p)
      case Nil
      with pq have "prefix sub (c # cs)" by (simp add: prefix_def)
      then show ?thesis by simp
    next
      case (Cons a p')
      with pq have "cs = p' @ sub @ q" by simp
      then have "py_in sub cs" using Cons.IH by blast
      then show ?thesis by simp
    qed
  qed
qed

lemma endswith_iff: "endswith s suf \<longleftrightarrow> (\<exists>p. s = p @ suf)"
proof
  assume "endswith s suf"
  then have "s = take (length s - length suf) s @ suf"
    by (metis append_take_drop_id endswith_def)
  then show "\<exists>p. s = p @ suf" ..
next
  assume "\<exists>p. s = p @ suf"
  then show "endswith s suf" by (auto simp: endswith_def)
qed

lemma endswith_append: "endswith (p @ suf) suf"
  by (simp add: endswith_def)

lemma rfind_bound: "rfind s sep = Some i \<Longrightarrow> i + length sep \<le> length s"
proof (induction s arbitrary: i)
  case Nil
  then show ?case by (auto split: if_splits)
next
  case (Cons c cs)
  then show ?case
    by (auto split: option.splits if_splits dest: prefix_length_le)
qed

lemma rfind_self: "sep \<noteq> [] \<Longrightarrow> rfind sep sep = Some 0"
proof (cases sep)
  case Nil
  then show "sep \<noteq> [] \<Longrightarrow> ?thesis" by simp
next
  case (Cons c cs)
  have "rfind cs (c # cs) = None"
  proof (cases "rfind cs (c # cs)")
    case (Some i)
    from rfind_bound [OF this] show ?thesis by simp
  qed simp
  with Cons show ?thesis by simp
qed

lemma rfind_append: "sep \<noteq> [] \<Longrightarrow> rfind (sub @ sep) sep = Some (length sub)"
  by (induction sub) (simp_all add: rfind_self)

lemma rpartition_append:
  "sep \<noteq> [] \<Longrightarrow> rpartition (sub @ sep) sep = Inr (sub, sep, [])"
  by (simp add: rpartition_def rfind_append)

subsection \<open>Facts about the decimal numbers\<close>

lemma int_of_digits_Nil: "int_of_digits [] = 0"
  by (simp add: int_of_digits_def)

lemma int_of_digits_snoc: "int_of_digits (ds @ [c]) = 10 * int_of_digits ds + digit_val c"
  by (simp add: int_of_digits_def)

lemma digit_char_cases: "n < 10 \<Longrightarrow> n \<in> {0, 1, 2, 3, 4, 5, 6, 7, 8, 9::nat}"
  by auto

lemma digit_val_digit_char: "digit_val (digit_char n) = int (n mod 10)"
proof -
  have "n mod 10 < 10" by simp
  from digit_char_cases [OF this] show ?thesis
    by (auto simp: digit_char_def digit_val_def)
qed

lemma is_digit_digit_char: "is_digit (digit_char n)"
proof -
  have "n mod 10 < 10" by simp
  from digit_char_cases [OF this] show ?thesis
    by (auto simp: digit_char_def is_digit_def)
qed

lemma int_of_digits_str_nat: "int_of_digits (str_nat n) = int n"
proof (induction n rule: str_nat.induct)
  case (1 n)
  show ?case
  proof (cases "n < 10")
    case True
    then show ?thesis
      by (subst str_nat.simps) (simp add: int_of_digits_def digit_val_digit_char)
  next
    case False
    with "1.IH" have "int_of_digits (str_nat (n div 10)) = int (n div 10)" by simp
    moreover have "10 * int (n div 10) + int (n mod 10) = int n"
    proof -
      have "10 * (n div 10) + n mod 10 = n" by simp
      then have "int (10 * (n div 10) + n mod 10) = int n" by (simp only:)
      then show ?thesis by (simp only: of_nat_add of_nat_mult of_nat_numeral)
    qed
    ultimately show ?thesis using False
      by (subst str_nat.simps) (simp add: int_of_digits_snoc digit_val_digit_char)
  qed
qed

lemma str_nat_digits: "list_all is_digit (str_nat n) \<and> str_nat n \<noteq> []"
proof (induction n rule: str_nat.induct)
  case (1 n)
  show ?case
  proof (cases "n < 10")
    case True
    then show ?thesis by (subst (1 2) str_nat.simps) (simp add: is_digit_digit_char)
  next
    case False
    with "1.IH" show ?thesis by (subst (1 2) str_nat.simps) (simp add: is_digit_digit_char)
  qed
qed

lemma int_of_digits_nonneg: "list_all is_digit ds \<Longrightarrow> 0 \<le> int_of_digits ds"
proof (induction ds rule: rev_induct)
  case Nil
  then show ?case by (simp add: int_of_digits_Nil)
next
  case (snoc c ds)
  then have "is_digit c" by simp
  then have "0 \<le> digit_val c" by (auto simp: is_digit_def digit_val_def)
  with snoc show ?case by (simp add: int_of_digits_snoc)
qed

subsection \<open>The example provider\<close>

lemmas request_defs = login_post_def profile_get_def domains_get_def add_post_def
  listing_get_def delete_get_def GRATISDNS_API_def

lemma demo_login:
  "login demo_client demo_server lg = (Inr (), lg @ [login_post demo_client, profile_get])"
  by (simp add: login_def session_request_def demo_server_def demo_client_def)

lemma demo_check_domain:
  "check_domain demo_client demo_server lg ''example.com'' = (Inr (), lg @ [domains_get])"
  by (simp add: check_domain_def session_request_def demo_server_def request_defs)

subsection \<open>The subdomain of the added record\<close>

text \<open>
  Claim C1. For every apex domain \<open>apex\<close> and every string \<open>sub\<close>, when the validation
  name is \<open>sub\<close>, a dot and \<open>apex\<close>, \<^verbatim>\<open>rpartition\<close> yields \<open>sub\<close> as its head, and
  \<^verbatim>\<open>add_txt_record\<close> (after a successful login and domain check) ends by posting
  the add request whose \<open>name\<close> field is exactly \<open>sub\<close>.
\<close>

theorem add_txt_record_sub_domain:
  assumes "login c srv lg = (Inr (), lg1)"
    and "check_domain c srv lg1 apex = (Inr (), lg2)"
  shows "rpartition (sub @ ''.'' @ apex) (''.'' @ apex) = Inr (sub, ''.'' @ apex, [])
    \<and> add_txt_record c srv lg apex (sub @ ''.'' @ apex) validation
        = (Inr (), lg2 @ [add_post c apex sub validation])
    \<and> map_of (data (add_post c apex sub validation)) ''name'' = Some (PyStr sub)"
proof -
  have sep: "''.'' @ apex \<noteq> []" by simp
  have rp: "rpartition (sub @ ''.'' @ apex) (''.'' @ apex) = Inr (sub, ''.'' @ apex, [])"
    by (rule rpartition_append [OF sep])
  have ew: "endswith (sub @ ''.'' @ apex) (''.'' @ apex)"
    by (rule endswith_append)
  have "add_txt_record c srv lg apex (sub @ ''.'' @ apex) validation
        = (Inr (), lg2 @ [add_post c apex sub validation])"
    unfolding add_txt_record_def using assms rp ew by (simp add: session_request_def)
  moreover have "map_of (data (add_post c apex sub validation)) ''name'' = Some (PyStr sub)"
    by (simp add: add_post_def)
  ultimately show ?thesis using rp by blast
qed

theorem add_txt_record_sub_domain_witness:
  "login demo_client demo_server [] = (Inr (), [login_post demo_client, profile_get])
   \<and> check_domain demo_client demo_server [login_post demo_client, profile_get] ''example.com''
       = (Inr (), [login_post demo_client, profile_get, domains_get])
   \<and> add_txt_record demo_client demo_server [] ''example.com'' ''_acme-challenge.example.com''
       ''abc123''
       = (Inr (), [login_post demo_client, profile_get, domains_get,
                   add_post demo_client ''example.com'' ''_acme-challenge'' ''abc123''])"
proof -
  have h1: "login demo_client demo_server [] = (Inr (), [login_post demo_client, profile_get])"
    using demo_login [of "[]"] by simp
  have h2: "check_domain demo_client demo_server [login_post demo_client, profile_get]
      ''example.com'' = (Inr (), [login_post demo_client, profile_get, domains_get])"
    using demo_check_domain [of "[login_post demo_client, profile_get]"] by simp
  show ?thesis
    using h1 h2 add_txt_record_sub_domain [OF h1 h2, of "''_acme-challenge''" "''abc123''"]
    by simp
qed

subsection \<open>The requests of \<^verbatim>\<open>login\<close> and \<^verbatim>\<open>check_domain\<close>\<close>

lemma login_log: "snd (login c srv lg) = lg @ [login_post c, profile_get]"
  by (simp add: login_def session_request_def)

lemma check_domain_log: "snd (check_domain c srv lg d) = lg @ [domains_get]"
  by (simp add: check_domain_def session_request_def)

lemma login_cases:
  "login c srv lg = (Inr (), lg @ [login_post c, profile_get])
   \<or> login c srv lg = (Inl (login_failed (username c)), lg @ [login_post c, profile_get])"
  by (simp add: login_def session_request_def)

lemma check_domain_cases:
  "check_domain c srv lg d = (Inr (), lg @ [domains_get])
   \<or> check_domain c srv lg d = (Inl (domain_not_found d (username c)), lg @ [domains_get])"
  by (simp add: check_domain_def session_request_def)

lemma login_ok_eq:
  "fst (login c srv lg) = Inr () \<Longrightarrow> login c srv lg = (Inr (), lg @ [login_post c, profile_get])"
  using login_cases [of c srv lg] by auto

lemma check_domain_ok_eq:
  "fst (check_domain c srv lg d) = Inr () \<Longrightarrow> check_domain c srv lg d = (Inr (), lg @ [domains_get])"
  using check_domain_cases [of c srv lg d] by auto

lemma demo_not_endswith: "\<not> endswith ''_acme-challenge.example.org'' (''.'' @ ''example.com'')"
  by (simp add: endswith_def)

lemma demo_endswith: "endswith ''_acme-challenge.example.com'' (''.'' @ ''example.com'')"
  by (simp add: endswith_def)

subsection \<open>The suffix precondition\<close>

text \<open>
  Against claim C2 as stated: with a validation name that does not end with a dot and the
  apex, both operations raise the \<^verbatim>\<open>AssertionError\<close> only after the two login
  requests and the domain check request have been sent.
\<close>

theorem precondition_checked_after_requests:
  "\<not> endswith ''_acme-challenge.example.org'' (''.'' @ ''example.com'')
   \<and> add_txt_record demo_client demo_server [] ''example.com'' ''_acme-challenge.example.org''
        ''abc123''
       = (Inl AssertionError, [login_post demo_client, profile_get, domains_get])
   \<and> del_txt_record demo_client demo_server [] ''example.com'' ''_acme-challenge.example.org''
        ''abc123''
       = (Inl AssertionError, [login_post demo_client, profile_get, domains_get])"
  using demo_not_endswith demo_login [of "[]"]
    demo_check_domain [of "[login_post demo_client, profile_get]"]
  by (simp add: add_txt_record_def del_txt_record_def)

lemma login_eq:
  "login c srv lg =
     (if \<not> py_in (username c) (profile_response c srv lg)
      then Inl (login_failed (username c)) else Inr (),
      lg @ [login_post c, profile_get])"
  by (simp add: login_def session_request_def profile_response_def)

lemma check_domain_eq:
  "check_domain c srv (lg @ [login_post c, profile_get]) d =
     (if \<not> py_in d (domains_response c srv lg)
      then Inl (domain_not_found d (username c)) else Inr (),
      lg @ [login_post c, profile_get, domains_get])"
  by (simp add: check_domain_def session_request_def domains_response_def)

text \<open>
  Claim C2, amended. When the validation name does not end with a dot and the apex
  domain, \<^verbatim>\<open>add_txt_record\<close> and \<^verbatim>\<open>del_txt_record\<close> both fail before any add,
  listing or deletion request is sent, and both in the same way. If the profile response
  lacks the username, they raise the login exception after the two login requests. If it
  has the username but the domain listing lacks the domain, they raise the domain
  exception after the two login requests and the domain check request. Otherwise they
  raise the \<^verbatim>\<open>AssertionError\<close> after these three requests.
\<close>

theorem precondition_before_mutation:
  assumes "\<not> endswith validation_domain_name (''.'' @ full_domain)"
  shows "add_txt_record c srv lg full_domain validation_domain_name validation
      = (if \<not> py_in (username c) (profile_response c srv lg)
         then (Inl (login_failed (username c)), lg @ [login_post c, profile_get])
         else if \<not> py_in full_domain (domains_response c srv lg)
         then (Inl (domain_not_found full_domain (username c)),
               lg @ [login_post c, profile_get, domains_get])
         else (Inl AssertionError, lg @ [login_post c, profile_get, domains_get]))
    \<and> del_txt_record c srv lg full_domain validation_domain_name validation
      = (if \<not> py_in (username c) (profile_response c srv lg)
         then (Inl (login_failed (username c)), lg @ [login_post c, profile_get])
         else if \<not> py_in full_domain (domains_response c srv lg)
         then (Inl (domain_not_found full_domain (username c)),
               lg @ [login_post c, profile_get, domains_get])
         else (Inl AssertionError, lg @ [login_post c, profile_get, domains_get]))"
  using assms
  by (simp add: add_txt_record_def del_txt_record_def login_eq check_domain_eq)

lemma demo_responses:
  "py_in (username demo_client) (profile_response demo_client demo_server [])"
  "py_in ''example.com'' (domains_response demo_client demo_server [])"
  by (simp_all add: profile_response_def domains_response_def demo_server_def demo_client_def
      request_defs)

theorem precondition_before_mutation_witness:
  "\<not> endswith ''_acme-challenge.example.org'' (''.'' @ ''example.com'')
   \<and> py_in (username demo_client) (profile_response demo_client demo_server [])
   \<and> py_in ''example.com'' (domains_response demo_client demo_server [])
   \<and> add_txt_record demo_client demo_server [] ''example.com'' ''_acme-challenge.example.org''
        ''abc123''
       = (Inl AssertionError, [login_post demo_client, profile_get, domains_get])
   \<and> del_txt_record demo_client demo_server [] ''example.com'' ''_acme-challenge.example.org''
        ''abc123''
       = (Inl AssertionError, [login_post demo_client, profile_get, domains_get])"
  using precondition_before_mutation [OF demo_not_endswith, of demo_client demo_server "[]"
      "''abc123''"] demo_not_endswith demo_responses
  by simp

subsection \<open>A rejected login\<close>

text \<open>
  Claim C6. When the response to the profile request does not contain the username,
  \<^verbatim>\<open>login\<close> raises the login exception, and \<^verbatim>\<open>add_txt_record\<close> and
  \<^verbatim>\<open>del_txt_record\<close> raise it too, having sent the two login requests and nothing
  else: no domain check and no add, listing or deletion request.
\<close>

theorem login_failure_stops:
  assumes "\<not> py_in (username c) (srv (lg @ [login_post c]) profile_get)"
  shows "login c srv lg = (Inl (login_failed (username c)), lg @ [login_post c, profile_get])
    \<and> add_txt_record c srv lg full_domain validation_domain_name validation
        = (Inl (login_failed (username c)), lg @ [login_post c, profile_get])
    \<and> del_txt_record c srv lg full_domain validation_domain_name validation
        = (Inl (login_failed (username c)), lg @ [login_post c, profile_get])"
  using assms
  by (simp add: add_txt_record_def del_txt_record_def login_def session_request_def)

lemma other_login_rejected:
  "\<not> py_in (username other_client) (demo_server ([] @ [login_post other_client]) profile_get)"
  by (simp add: demo_server_def other_client_def)

theorem login_failure_stops_witness:
  "\<not> py_in (username other_client) (demo_server ([] @ [login_post other_client]) profile_get)
   \<and> add_txt_record other_client demo_server [] ''example.com'' ''_acme-challenge.example.com''
        ''abc123''
       = (Inl (login_failed ''mallory''), [login_post other_client, profile_get])
   \<and> del_txt_record other_client demo_server [] ''example.com'' ''_acme-challenge.example.com''
        ''abc123''
       = (Inl (login_failed ''mallory''), [login_post other_client, profile_get])"
  using login_failure_stops [of other_client demo_server "[]" "''example.com''"
      "''_acme-challenge.example.com''" "''abc123''"] other_login_rejected
  by (simp add: other_client_def)

subsection \<open>The example listing\<close>

lemmas regex_defs = match_here_def match_link_def match_id_def delete_action_def is_digit_def

lemma demo_get_txt_record_id:
  "get_txt_record_id demo_server lg ''example.com'' ''abc123''
     = (Inr (Some 99), lg @ [listing_get ''example.com''])"
  by (simp add: get_txt_record_id_def session_request_def demo_server_def request_defs
      demo_listing_def regex_defs int_of_digits_def digit_val_def py_int_def
      int_max_str_digits_def)

lemma demo_absent: "\<not> py_in ''zzz''  (demo_server lg (listing_get ''example.com''))"
  by (simp add: demo_server_def request_defs demo_listing_def)

subsection \<open>Deleting a record\<close>

text \<open>
  Claim C3. When the listing page does not contain the record value,
  \<^verbatim>\<open>get_txt_record_id\<close> returns \<^verbatim>\<open>None\<close> without raising, and
  \<^verbatim>\<open>del_txt_record\<close> (after a successful login, domain check and precondition)
  returns normally; the listing request is the last request it sends, so no deletion
  request is sent.
\<close>

theorem absent_record_is_noop:
  assumes "\<not> py_in validation (srv lg2 (listing_get full_domain))"
  shows "get_txt_record_id srv lg2 full_domain validation
           = (Inr None, lg2 @ [listing_get full_domain])
    \<and> (login c srv lg = (Inr (), lg1) \<and> check_domain c srv lg1 full_domain = (Inr (), lg2)
         \<and> endswith validation_domain_name (''.'' @ full_domain)
       \<longrightarrow> del_txt_record c srv lg full_domain validation_domain_name validation
             = (Inr (), lg @ [login_post c, profile_get, domains_get, listing_get full_domain]))"
proof -
  have g: "get_txt_record_id srv lg2 full_domain validation
           = (Inr None, lg2 @ [listing_get full_domain])"
    using assms by (simp add: get_txt_record_id_def session_request_def)
  have "del_txt_record c srv lg full_domain validation_domain_name validation
             = (Inr (), lg @ [login_post c, profile_get, domains_get, listing_get full_domain])"
    if l: "login c srv lg = (Inr (), lg1)"
      and d: "check_domain c srv lg1 full_domain = (Inr (), lg2)"
      and e: "endswith validation_domain_name (''.'' @ full_domain)"
  proof -
    have lg1: "lg1 = lg @ [login_post c, profile_get]"
      using l login_log [of c srv lg] by simp
    have lg2: "lg2 = lg1 @ [domains_get]"
      using d check_domain_log [of c srv lg1 full_domain] by simp
    show ?thesis
      unfolding del_txt_record_def using l d e g by (simp add: lg1 lg2)
  qed
  with g show ?thesis by blast
qed

theorem absent_record_is_noop_witness:
  "\<not> py_in ''zzz'' (demo_server [login_post demo_client, profile_get, domains_get]
                      (listing_get ''example.com''))
   \<and> endswith ''_acme-challenge.example.com'' (''.'' @ ''example.com'')
   \<and> get_txt_record_id demo_server [login_post demo_client, profile_get, domains_get]
        ''example.com'' ''zzz''
       = (Inr None, [login_post demo_client, profile_get, domains_get,
                     listing_get ''example.com''])
   \<and> del_txt_record demo_client demo_server [] ''example.com'' ''_acme-challenge.example.com''
        ''zzz''
       = (Inr (), [login_post demo_client, profile_get, domains_get,
                   listing_get ''example.com''])"
  using absent_record_is_noop [where srv = demo_server and validation = "''zzz''"
      and ?lg2.0 = "[login_post demo_client, profile_get, domains_get]" and c = demo_client
      and lg = "[]" and ?lg1.0 = "[login_post demo_client, profile_get]"
      and full_domain = "''example.com''"
      and validation_domain_name = "''_acme-challenge.example.com''"]
    demo_absent [of "[login_post demo_client, profile_get, domains_get]"]
    demo_endswith demo_login [of "[]"]
    demo_check_domain [of "[login_post demo_client, profile_get]"]
  by simp

text \<open>
  Claim C7. When \<^verbatim>\<open>del_txt_record\<close> has found a record id, it sends the deletion
  request for that id, and it raises the deletion exception exactly when the response does
  not contain \<open>Record was deleted\<close>; it returns normally exactly when the response
  contains it.
\<close>

theorem deletion_checked_by_marker:
  assumes "login c srv lg = (Inr (), lg1)"
    and "check_domain c srv lg1 full_domain = (Inr (), lg2)"
    and "endswith validation_domain_name (''.'' @ full_domain)"
    and "get_txt_record_id srv lg2 full_domain validation = (Inr (Some record_id), lg3)"
  shows "snd (del_txt_record c srv lg full_domain validation_domain_name validation)
           = lg3 @ [delete_get full_domain record_id]
    \<and> (fst (del_txt_record c srv lg full_domain validation_domain_name validation)
          = Inl not_deleted
        \<longleftrightarrow> \<not> py_in ''Record was deleted'' (srv lg3 (delete_get full_domain record_id)))
    \<and> (fst (del_txt_record c srv lg full_domain validation_domain_name validation) = Inr ()
        \<longleftrightarrow> py_in ''Record was deleted'' (srv lg3 (delete_get full_domain record_id)))"
  unfolding del_txt_record_def using assms
  by (simp add: session_request_def success_marker_def)

lemma demo_delete_confirmed:
  "py_in ''Record was deleted'' (demo_server lg (delete_get ''example.com'' 99))"
  by (simp add: demo_server_def request_defs)

theorem deletion_checked_by_marker_witness:
  "login demo_client demo_server [] = (Inr (), [login_post demo_client, profile_get])
   \<and> check_domain demo_client demo_server [login_post demo_client, profile_get] ''example.com''
       = (Inr (), [login_post demo_client, profile_get, domains_get])
   \<and> endswith ''_acme-challenge.example.com'' (''.'' @ ''example.com'')
   \<and> get_txt_record_id demo_server [login_post demo_client, profile_get, domains_get]
        ''example.com'' ''abc123''
       = (Inr (Some 99), [login_post demo_client, profile_get, domains_get,
                          listing_get ''example.com''])
   \<and> del_txt_record demo_client demo_server [] ''example.com'' ''_acme-challenge.example.com''
        ''abc123''
       = (Inr (), [login_post demo_client, profile_get, domains_get,
                   listing_get ''example.com'', delete_get ''example.com'' 99])"
proof -
  have h1: "login demo_client demo_server [] = (Inr (), [login_post demo_client, profile_get])"
    using demo_login [of "[]"] by simp
  have h2: "check_domain demo_client demo_server [login_post demo_client, profile_get]
      ''example.com'' = (Inr (), [login_post demo_client, profile_get, domains_get])"
    using demo_check_domain [of "[login_post demo_client, profile_get]"] by simp
  have h3: "get_txt_record_id demo_server [login_post demo_client, profile_get, domains_get]
        ''example.com'' ''abc123''
       = (Inr (Some 99), [login_post demo_client, profile_get, domains_get,
                          listing_get ''example.com''])"
    using demo_get_txt_record_id [of "[login_post demo_client, profile_get, domains_get]"]
    by simp
  have h4: "py_in ''Record was deleted''
      (demo_server [login_post demo_client, profile_get, domains_get,
                    listing_get ''example.com''] (delete_get ''example.com'' 99))"
    by (rule demo_delete_confirmed)
  from deletion_checked_by_marker [OF h1 h2 demo_endswith h3] h4
  have "del_txt_record demo_client demo_server [] ''example.com'' ''_acme-challenge.example.com''
        ''abc123''
       = (Inr (), [login_post demo_client, profile_get, domains_get,
                   listing_get ''example.com'', delete_get ''example.com'' 99])"
    by (simp add: prod_eq_iff)
  with h1 h2 h3 demo_endswith show ?thesis by simp
qed

lemma login_agree:
  assumes "\<forall>lg' r. is_add_request r \<or> srv lg' r = srv' lg' r"
  shows "login c srv lg = login c srv' lg"
proof -
  have "\<not> is_add_request profile_get"
    by (simp add: is_add_request_def profile_get_def)
  with assms have "srv (lg @ [login_post c]) profile_get = srv' (lg @ [login_post c]) profile_get"
    by blast
  then show ?thesis by (simp add: login_def session_request_def)
qed

lemma check_domain_agree:
  assumes "\<forall>lg' r. is_add_request r \<or> srv lg' r = srv' lg' r"
  shows "check_domain c srv lg d = check_domain c srv' lg d"
proof -
  have "\<not> is_add_request domains_get"
    by (simp add: is_add_request_def domains_get_def)
  with assms have "srv lg domains_get = srv' lg domains_get"
    by blast
  then show ?thesis by (simp add: check_domain_def session_request_def)
qed

subsection \<open>The response to the add request\<close>

text \<open>
  Claim C8. Two providers that answer every request alike, except possibly the add
  request, give \<^verbatim>\<open>add_txt_record\<close> the same outcome; and when the login, the domain
  check and the precondition succeed, \<^verbatim>\<open>add_txt_record\<close> returns normally whatever
  the response to the add request is.
\<close>

theorem add_response_not_inspected:
  assumes "\<forall>lg' r. is_add_request r \<or> srv lg' r = srv' lg' r"
  shows "add_txt_record c srv lg full_domain validation_domain_name validation
           = add_txt_record c srv' lg full_domain validation_domain_name validation
    \<and> (fst (login c srv lg) = Inr ()
         \<and> fst (check_domain c srv (lg @ [login_post c, profile_get]) full_domain) = Inr ()
         \<and> endswith validation_domain_name (''.'' @ full_domain)
       \<longrightarrow> fst (add_txt_record c srv lg full_domain validation_domain_name validation) = Inr ())"
proof -
  have eq: "add_txt_record c srv lg full_domain validation_domain_name validation
           = add_txt_record c srv' lg full_domain validation_domain_name validation"
    unfolding add_txt_record_def
    by (simp add: login_agree [OF assms] check_domain_agree [OF assms] session_request_def
        split: prod.splits sum.splits)
  have "fst (add_txt_record c srv lg full_domain validation_domain_name validation) = Inr ()"
    if l: "fst (login c srv lg) = Inr ()"
      and d: "fst (check_domain c srv (lg @ [login_post c, profile_get]) full_domain) = Inr ()"
      and e: "endswith validation_domain_name (''.'' @ full_domain)"
  proof -
    have "rpartition validation_domain_name (''.'' @ full_domain) \<noteq> Inl ValueError"
      by (simp add: rpartition_def split: option.splits)
    then show ?thesis
      unfolding add_txt_record_def using login_ok_eq [OF l] check_domain_ok_eq [OF d] e
      by (simp add: session_request_def rpartition_def split: sum.splits option.splits)
  qed
  with eq show ?thesis by blast
qed

lemma silent_add_server_agrees:
  "\<forall>lg' r. is_add_request r \<or> demo_server lg' r = silent_add_server lg' r"
  by (simp add: silent_add_server_def)

theorem add_response_not_inspected_witness:
  "(\<forall>lg' r. is_add_request r \<or> demo_server lg' r = silent_add_server lg' r)
   \<and> demo_server [login_post demo_client, profile_get, domains_get]
        (add_post demo_client ''example.com'' ''_acme-challenge'' ''abc123'')
       \<noteq> silent_add_server [login_post demo_client, profile_get, domains_get]
        (add_post demo_client ''example.com'' ''_acme-challenge'' ''abc123'')
   \<and> fst (add_txt_record demo_client demo_server [] ''example.com''
            ''_acme-challenge.example.com'' ''abc123'') = Inr ()
   \<and> add_txt_record demo_client silent_add_server [] ''example.com''
        ''_acme-challenge.example.com'' ''abc123''
       = add_txt_record demo_client demo_server [] ''example.com''
        ''_acme-challenge.example.com'' ''abc123''"
proof -
  have d: "demo_server [login_post demo_client, profile_get, domains_get]
        (add_post demo_client ''example.com'' ''_acme-challenge'' ''abc123'')
       \<noteq> silent_add_server [login_post demo_client, profile_get, domains_get]
        (add_post demo_client ''example.com'' ''_acme-challenge'' ''abc123'')"
    by (simp add: silent_add_server_def is_add_request_def demo_server_def request_defs)
  have l: "fst (login demo_client demo_server []) = Inr ()"
    using demo_login [of "[]"] by simp
  have k: "fst (check_domain demo_client demo_server ([] @ [login_post demo_client, profile_get])
      ''example.com'') = Inr ()"
    using demo_check_domain [of "[login_post demo_client, profile_get]"] by simp
  from add_response_not_inspected [OF silent_add_server_agrees, of demo_client "[]"
        "''example.com''" "''_acme-challenge.example.com''" "''abc123''"] l k demo_endswith
  have "add_txt_record demo_client silent_add_server [] ''example.com''
        ''_acme-challenge.example.com'' ''abc123''
       = add_txt_record demo_client demo_server [] ''example.com''
        ''_acme-challenge.example.com'' ''abc123''"
    and "fst (add_txt_record demo_client demo_server [] ''example.com''
            ''_acme-challenge.example.com'' ''abc123'') = Inr ()"
    by auto
  with silent_add_server_agrees d show ?thesis by blast
qed

subsection \<open>The search finds exactly the pattern\<close>

lemma match_id_Some:
  assumes "match_id s = Some g"
  shows "\<exists>post. s = ''id='' @ g @ post \<and> g \<noteq> [] \<and> list_all is_digit g
           \<and> (post = [] \<or> \<not> is_digit (hd post))"
proof -
  from assms have p: "prefix ''id='' s"
    by (auto simp: match_id_def split: if_splits)
  then obtain r where s: "s = ''id='' @ r" by (auto simp: prefix_def)
  from assms p s have g: "g = takeWhile is_digit r" and ne: "g \<noteq> []"
    by (auto simp: match_id_def Let_def split: if_splits)
  have "r = g @ dropWhile is_digit r" by (simp add: g)
  moreover have "list_all is_digit g"
    by (auto simp: g list_all_iff dest: set_takeWhileD)
  moreover have "dropWhile is_digit r = [] \<or> \<not> is_digit (hd (dropWhile is_digit r))"
    using hd_dropWhile [of is_digit r] by blast
  ultimately show ?thesis using s ne by blast
qed

lemma match_id_complete:
  assumes "ds \<noteq> []" and "list_all is_digit ds"
  shows "match_id (''id='' @ ds @ post) = Some (ds @ takeWhile is_digit post)"
  using assms by (simp add: match_id_def list_all_iff)

lemma match_link_prefix: "match_link s = Some g \<Longrightarrow> prefix delete_action s"
  by (simp add: match_link_def split: if_splits)

lemma match_link_Some:
  assumes "match_link s = Some g"
  shows "\<exists>sep post. (sep = ''&'' \<or> sep = ''&amp;'')
           \<and> s = delete_action @ sep @ ''id='' @ g @ post \<and> g \<noteq> [] \<and> list_all is_digit g
           \<and> (post = [] \<or> \<not> is_digit (hd post))"
proof -
  from match_link_prefix [OF assms] obtain r where s: "s = delete_action @ r"
    by (auto simp: prefix_def)
  from assms s consider
      (amp) "prefix ''&'' r" "match_id (drop 1 r) = Some g"
    | (ent) "prefix ''&amp;'' r" "match_id (drop 5 r) = Some g"
    by (auto simp: match_link_def Let_def split: if_splits option.splits)
  then show ?thesis
  proof cases
    case amp
    then obtain r' where r: "r = ''&'' @ r'" by (auto simp: prefix_def)
    with amp have "match_id r' = Some g" by simp
    from match_id_Some [OF this] s r show ?thesis by auto
  next
    case ent
    then obtain r' where r: "r = ''&amp;'' @ r'" by (auto simp: prefix_def)
    with ent have "match_id r' = Some g" by simp
    from match_id_Some [OF this] s r show ?thesis by auto
  qed
qed

lemma match_link_complete:
  assumes "sep = ''&'' \<or> sep = ''&amp;''" and "ds \<noteq> []" and "list_all is_digit ds"
  shows "match_link (delete_action @ sep @ ''id='' @ ds @ post)
           = Some (ds @ takeWhile is_digit post)"
proof -
  have m: "match_id (''id='' @ ds @ post) = Some (ds @ takeWhile is_digit post)"
    by (rule match_id_complete [OF assms(2,3)])
  have n: "match_id (''amp;id='' @ ds @ post) = None"
    by (simp add: match_id_def)
  from assms(1) show ?thesis
  proof
    assume "sep = ''&''"
    then show ?thesis using m by (simp add: match_link_def)
  next
    assume "sep = ''&amp;''"
    then show ?thesis using m n by (simp add: match_link_def)
  qed
qed

lemma lazy_dot_link_Some:
  "lazy_dot_link s = Some g \<Longrightarrow> \<exists>mid rest. s = mid @ rest \<and> match_link rest = Some g"
proof (induction s)
  case Nil
  then show ?case by simp
next
  case (Cons c cs)
  show ?case
  proof (cases "match_link (c # cs)")
    case None
    with Cons.prems have "lazy_dot_link cs = Some g" by simp
    from Cons.IH [OF this] obtain mid rest where "cs = mid @ rest" "match_link rest = Some g"
      by blast
    then have "c # cs = (c # mid) @ rest \<and> match_link rest = Some g" by simp
    then show ?thesis by blast
  next
    case (Some a)
    with Cons.prems have "c # cs = [] @ (c # cs) \<and> match_link (c # cs) = Some g" by simp
    then show ?thesis by blast
  qed
qed

lemma lazy_dot_link_here: "match_link s = Some g \<Longrightarrow> lazy_dot_link s = Some g"
  by (cases s) simp_all

lemma lazy_dot_link_complete:
  "match_link rest = Some g \<Longrightarrow> \<exists>g'. lazy_dot_link (mid @ rest) = Some g'"
proof (induction mid)
  case Nil
  then show ?case by (simp add: lazy_dot_link_here)
next
  case (Cons c mid)
  then show ?case by (cases "match_link (c # mid @ rest)") auto
qed

lemma lazy_dot_link_skip:
  "(\<forall>k<length mid. match_link (drop k (mid @ rest)) = None)
   \<Longrightarrow> lazy_dot_link (mid @ rest) = lazy_dot_link rest"
proof (induction mid)
  case Nil
  then show ?case by simp
next
  case (Cons c mid)
  from Cons.prems have "match_link (drop 0 ((c # mid) @ rest)) = None" by blast
  then have h: "match_link (c # mid @ rest) = None" by simp
  have "\<forall>k<length mid. match_link (drop k (mid @ rest)) = None"
  proof (intro allI impI)
    fix k assume "k < length mid"
    then have "Suc k < length (c # mid)" by simp
    with Cons.prems have "match_link (drop (Suc k) ((c # mid) @ rest)) = None" by blast
    then show "match_link (drop k (mid @ rest)) = None" by simp
  qed
  from Cons.IH [OF this] h show ?case by simp
qed

lemma match_here_Some:
  "match_here v s = Some g \<Longrightarrow> \<exists>r. s = ''>'' @ v @ r \<and> lazy_dot_link r = Some g"
  by (auto simp: match_here_def prefix_def split: if_splits)

lemma match_here_prefix: "match_here v s = Some g \<Longrightarrow> prefix (''>'' @ v) s"
  by (simp add: match_here_def split: if_splits)

lemma match_here_append: "match_here v (''>'' @ v @ r) = lazy_dot_link r"
  by (simp add: match_here_def)

lemma re_search_Some:
  "re_search v s = Some g \<Longrightarrow> \<exists>pre rest. s = pre @ rest \<and> match_here v rest = Some g"
proof (induction s)
  case Nil
  then show ?case by simp
next
  case (Cons c cs)
  show ?case
  proof (cases "match_here v (c # cs)")
    case None
    with Cons.prems have "re_search v cs = Some g" by simp
    from Cons.IH [OF this] obtain pre rest where "cs = pre @ rest" "match_here v rest = Some g"
      by blast
    then have "c # cs = (c # pre) @ rest \<and> match_here v rest = Some g" by simp
    then show ?thesis by blast
  next
    case (Some a)
    with Cons.prems have "c # cs = [] @ (c # cs) \<and> match_here v (c # cs) = Some g" by simp
    then show ?thesis by blast
  qed
qed

lemma re_search_here: "match_here v s = Some g \<Longrightarrow> re_search v s = Some g"
  by (cases s) simp_all

lemma re_search_complete:
  "match_here v rest = Some g \<Longrightarrow> \<exists>g'. re_search v (pre @ rest) = Some g'"
proof (induction pre)
  case Nil
  then show ?case by (simp add: re_search_here)
next
  case (Cons c pre)
  then show ?case by (cases "match_here v (c # pre @ rest)") auto
qed

lemma re_search_skip:
  "(\<forall>i<length pre. match_here v (drop i (pre @ rest)) = None)
   \<Longrightarrow> re_search v (pre @ rest) = re_search v rest"
proof (induction pre)
  case Nil
  then show ?case by simp
next
  case (Cons c pre)
  from Cons.prems have "match_here v (drop 0 ((c # pre) @ rest)) = None" by blast
  then have h: "match_here v (c # pre @ rest) = None" by simp
  have "\<forall>i<length pre. match_here v (drop i (pre @ rest)) = None"
  proof (intro allI impI)
    fix i assume "i < length pre"
    then have "Suc i < length (c # pre)" by simp
    with Cons.prems have "match_here v (drop (Suc i) ((c # pre) @ rest)) = None" by blast
    then show "match_here v (drop i (pre @ rest)) = None" by simp
  qed
  from Cons.IH [OF this] h show ?case by simp
qed

text \<open>Soundness and completeness of the search with respect to the pattern.\<close>

lemma re_search_sound:
  assumes "re_search v body = Some g"
  shows "link_after v body g"
proof -
  from re_search_Some [OF assms] obtain pre rest
    where b: "body = pre @ rest" and m: "match_here v rest = Some g" by blast
  from match_here_Some [OF m] obtain r
    where r: "rest = ''>'' @ v @ r" and l: "lazy_dot_link r = Some g" by blast
  from lazy_dot_link_Some [OF l] obtain mid tl
    where t: "r = mid @ tl" and k: "match_link tl = Some g" by blast
  from match_link_Some [OF k] obtain sep post
    where "sep = ''&'' \<or> sep = ''&amp;''" "tl = delete_action @ sep @ ''id='' @ g @ post"
      "g \<noteq> []" "list_all is_digit g" by blast
  with b r t show ?thesis unfolding link_after_def by blast
qed

lemma re_search_finds:
  assumes "link_after v body ds"
  shows "\<exists>g. re_search v body = Some g"
proof -
  from assms obtain pre mid sep post
    where b: "body = pre @ ''>'' @ v @ mid @ delete_action @ sep @ ''id='' @ ds @ post"
      and s: "sep = ''&'' \<or> sep = ''&amp;''" and d: "ds \<noteq> []" "list_all is_digit ds"
    unfolding link_after_def by blast
  from match_link_complete [OF s d]
  obtain g where "match_link (delete_action @ sep @ ''id='' @ ds @ post) = Some g" by blast
  from lazy_dot_link_complete [OF this]
  obtain g' where "lazy_dot_link (mid @ delete_action @ sep @ ''id='' @ ds @ post) = Some g'"
    by blast
  then have "match_here v (''>'' @ v @ mid @ delete_action @ sep @ ''id='' @ ds @ post) = Some g'"
    by (simp only: match_here_append)
  from re_search_complete [OF this] b show ?thesis by simp
qed

lemma pattern_matches_iff: "pattern_matches v body \<longleftrightarrow> re_search v body \<noteq> None"
  unfolding pattern_matches_def using re_search_sound re_search_finds by fastforce

lemma link_after_py_in: "link_after v body ds \<Longrightarrow> py_in v body"
  unfolding link_after_def py_in_iff
proof -
  assume "\<exists>pre mid sep post.
        body = pre @ ''>'' @ v @ mid @ delete_action @ sep @ ''id='' @ ds @ post
        \<and> (sep = ''&'' \<or> sep = ''&amp;'') \<and> ds \<noteq> [] \<and> list_all is_digit ds"
  then obtain pre mid sep post
    where "body = pre @ ''>'' @ v @ mid @ delete_action @ sep @ ''id='' @ ds @ post" by blast
  then have "body = (pre @ ''>'') @ v @ (mid @ delete_action @ sep @ ''id='' @ ds @ post)"
    by simp
  then show "\<exists>p q. body = p @ v @ q" by blast
qed

lemma get_txt_record_id_eq:
  "get_txt_record_id srv lg d v =
     (if \<not> py_in v (srv lg (listing_get d)) then Inr None
      else case re_search v (srv lg (listing_get d)) of
             None \<Rightarrow> Inl regex_failed
           | Some g \<Rightarrow> if length g \<le> 4300 then Inr (Some (int_of_digits g))
                      else Inl ValueError,
      lg @ [listing_get d])"
proof (cases "re_search v (srv lg (listing_get d))")
  case None
  then show ?thesis by (simp add: get_txt_record_id_def session_request_def)
next
  case (Some g)
  from re_search_sound [OF this] have "g \<noteq> []" unfolding link_after_def by blast
  with Some show ?thesis
    by (simp add: get_txt_record_id_def session_request_def py_int_def int_max_str_digits_def)
qed

subsection \<open>The first link after the first occurrence\<close>

lemma none_before_iff: "none_before p s n \<longleftrightarrow> (\<forall>i<n. \<not> prefix p (drop i s))"
  by (auto simp: none_before_def list_all_iff)

lemma drop_append_le: "n \<le> length xs \<Longrightarrow> drop n (xs @ ys) = drop n xs @ ys"
  by simp

lemma link_at_iff: "link_at s \<longleftrightarrow> match_link s \<noteq> None"
proof
  assume "link_at s"
  then obtain sep ds post where "s = delete_action @ sep @ ''id='' @ ds @ post"
    "sep = ''&'' \<or> sep = ''&amp;''" "ds \<noteq> []" "list_all is_digit ds"
    unfolding link_at_def by blast
  then show "match_link s \<noteq> None" using match_link_complete [of sep ds post] by simp
next
  assume "match_link s \<noteq> None"
  then obtain g where "match_link s = Some g" by blast
  from match_link_Some [OF this] show "link_at s" unfolding link_at_def by blast
qed

lemma no_link_before_iff:
  "no_link_before s n \<longleftrightarrow> (\<forall>k<n. match_link (drop k s) = None)"
  by (auto simp: no_link_before_def list_all_iff link_at_iff)

lemma lazy_dot_link_Some_first:
  "lazy_dot_link s = Some g \<Longrightarrow>
     \<exists>mid rest. s = mid @ rest \<and> match_link rest = Some g
       \<and> (\<forall>k<length mid. match_link (drop k s) = None)"
proof (induction s)
  case Nil
  then have "match_link [] = Some g" by simp
  moreover have "([]::string) = [] @ []" by simp
  moreover have "\<forall>k<length ([]::string). match_link (drop k []) = None" by simp
  ultimately show ?case by blast
next
  case (Cons c cs)
  show ?case
  proof (cases "match_link (c # cs)")
    case None
    with Cons.prems have "lazy_dot_link cs = Some g" by simp
    from Cons.IH [OF this] obtain mid rest where m: "cs = mid @ rest" "match_link rest = Some g"
      "\<forall>k<length mid. match_link (drop k cs) = None" by blast
    have f: "\<forall>k<length (c # mid). match_link (drop k (c # cs)) = None"
    proof (intro allI impI)
      fix k assume k: "k < length (c # mid)"
      show "match_link (drop k (c # cs)) = None"
      proof (cases k)
        case 0
        with None show ?thesis by simp
      next
        case (Suc k')
        with k have "k' < length mid" by simp
        with m(3) have "match_link (drop k' cs) = None" by blast
        with Suc show ?thesis by simp
      qed
    qed
    have "c # cs = (c # mid) @ rest" using m(1) by simp
    with m(2) f show ?thesis by blast
  next
    case (Some a)
    with Cons.prems have "match_link (c # cs) = Some g" by simp
    moreover have "c # cs = [] @ (c # cs)" by simp
    moreover have "\<forall>k<length ([]::string). match_link (drop k (c # cs)) = None" by simp
    ultimately show ?thesis by blast
  qed
qed

lemma re_search_Some_first:
  "re_search v s = Some g \<Longrightarrow>
     \<exists>pre rest. s = pre @ rest \<and> match_here v rest = Some g
       \<and> (\<forall>i<length pre. match_here v (drop i s) = None)"
proof (induction s)
  case Nil
  then have "match_here v [] = Some g" by simp
  moreover have "([]::string) = [] @ []" by simp
  moreover have "\<forall>i<length ([]::string). match_here v (drop i []) = None" by simp
  ultimately show ?case by blast
next
  case (Cons c cs)
  show ?case
  proof (cases "match_here v (c # cs)")
    case None
    with Cons.prems have "re_search v cs = Some g" by simp
    from Cons.IH [OF this] obtain pre rest where m: "cs = pre @ rest"
      "match_here v rest = Some g" "\<forall>i<length pre. match_here v (drop i cs) = None" by blast
    have f: "\<forall>i<length (c # pre). match_here v (drop i (c # cs)) = None"
    proof (intro allI impI)
      fix i assume i: "i < length (c # pre)"
      show "match_here v (drop i (c # cs)) = None"
      proof (cases i)
        case 0
        with None show ?thesis by simp
      next
        case (Suc i')
        with i have "i' < length pre" by simp
        with m(3) have "match_here v (drop i' cs) = None" by blast
        with Suc show ?thesis by simp
      qed
    qed
    have "c # cs = (c # pre) @ rest" using m(1) by simp
    with m(2) f show ?thesis by blast
  next
    case (Some a)
    with Cons.prems have "match_here v (c # cs) = Some g" by simp
    moreover have "c # cs = [] @ (c # cs)" by simp
    moreover have "\<forall>i<length ([]::string). match_here v (drop i (c # cs)) = None" by simp
    ultimately show ?thesis by blast
  qed
qed

lemma first_link_found:
  assumes "first_link v body pre mid sep ds post"
  shows "re_search v body = Some ds"
proof -
  define tl where "tl = delete_action @ sep @ ''id='' @ ds @ post"
  define rest where "rest = ''>'' @ v @ mid @ tl"
  from assms have b: "body = pre @ rest"
    and s: "sep = ''&'' \<or> sep = ''&amp;''" and d: "ds \<noteq> []" "list_all is_digit ds"
    and npre: "none_before (''>'' @ v) body (length pre)"
    and nmid: "no_link_before (mid @ tl) (length mid)"
    and hpost: "post = [] \<or> \<not> is_digit (hd post)"
    unfolding first_link_def rest_def tl_def by blast+
  have "takeWhile is_digit post = []"
    using hpost by (simp add: takeWhile_eq_Nil_iff)
  with match_link_complete [OF s d, of post] have ml: "match_link tl = Some ds"
    by (simp add: tl_def)
  from nmid have "\<forall>k<length mid. match_link (drop k (mid @ tl)) = None"
    by (simp only: no_link_before_iff)
  from lazy_dot_link_skip [OF this] lazy_dot_link_here [OF ml]
  have "lazy_dot_link (mid @ tl) = Some ds" by simp
  then have mh: "match_here v rest = Some ds"
    unfolding rest_def by (simp only: match_here_append)
  have "\<forall>i<length pre. match_here v (drop i (pre @ rest)) = None"
  proof (intro allI impI)
    fix i assume i: "i < length pre"
    show "match_here v (drop i (pre @ rest)) = None"
    proof (cases "match_here v (drop i (pre @ rest))")
      case (Some g)
      from match_here_prefix [OF this] npre i b show ?thesis
        by (simp add: none_before_iff)
    qed simp
  qed
  from re_search_skip [OF this] re_search_here [OF mh] b show ?thesis by simp
qed

lemma re_search_first_link:
  assumes "re_search v body = Some g"
  shows "\<exists>pre mid sep post. first_link v body pre mid sep g post"
proof -
  from re_search_Some_first [OF assms] obtain pre rest
    where b: "body = pre @ rest" and m: "match_here v rest = Some g"
      and fp: "\<forall>i<length pre. match_here v (drop i body) = None" by blast
  from match_here_Some [OF m] obtain r
    where r: "rest = ''>'' @ v @ r" and l: "lazy_dot_link r = Some g" by blast
  from lazy_dot_link_Some_first [OF l] obtain mid tl
    where t: "r = mid @ tl" and k: "match_link tl = Some g"
      and fm: "\<forall>k<length mid. match_link (drop k r) = None" by blast
  from match_link_Some [OF k] obtain sep post
    where sp: "sep = ''&'' \<or> sep = ''&amp;''" "tl = delete_action @ sep @ ''id='' @ g @ post"
      "g \<noteq> []" "list_all is_digit g" "post = [] \<or> \<not> is_digit (hd post)" by blast
  have body: "body = pre @ ''>'' @ v @ mid @ delete_action @ sep @ ''id='' @ g @ post"
    using b r t sp(2) by simp
  have nl: "no_link_before (mid @ delete_action @ sep @ ''id='' @ g @ post) (length mid)"
    using fm t sp(2) by (simp add: no_link_before_iff)
  have nb: "none_before (''>'' @ v) body (length pre)"
    unfolding none_before_iff
  proof (intro allI impI notI)
    fix i assume i: "i < length pre" and p: "prefix (''>'' @ v) (drop i body)"
    then obtain w where w: "drop i body = ''>'' @ v @ w" by (auto simp: prefix_def)
    have "w = drop (length (''>'' @ v)) (drop i body)" using w by simp
    also have "\<dots> = drop (i + length (''>'' @ v)) body" by (simp add: add.commute)
    also have "\<dots> = drop (i + length (''>'' @ v)) ((pre @ ''>'' @ v @ mid) @ tl)"
      using b r t by simp
    also have "\<dots> = drop (i + length (''>'' @ v)) (pre @ ''>'' @ v @ mid) @ tl"
    proof (rule drop_append_le)
      show "i + length (''>'' @ v) \<le> length (pre @ ''>'' @ v @ mid)" using i by simp
    qed
    finally have "w = drop (i + length (''>'' @ v)) (pre @ ''>'' @ v @ mid) @ tl" .
    moreover from lazy_dot_link_complete [OF k,
        of "drop (i + length (''>'' @ v)) (pre @ ''>'' @ v @ mid)"]
    obtain g' where
      "lazy_dot_link (drop (i + length (''>'' @ v)) (pre @ ''>'' @ v @ mid) @ tl) = Some g'"
      by blast
    ultimately have "lazy_dot_link w = Some g'" by (simp only:)
    then have "match_here v (drop i body) = Some g'"
      using w by (simp only: match_here_append)
    with fp i show False by simp
  qed
  from body sp nl nb have "first_link v body pre mid sep g post"
    unfolding first_link_def by blast
  then show ?thesis by blast
qed

lemma first_link_link_after:
  "first_link v body pre mid sep ds post \<Longrightarrow> link_after v body ds"
  unfolding first_link_def link_after_def by blast

subsection \<open>Finding the record id\<close>

text \<open>
  Claim C4, amended. When the listing page contains the record value preceded by
  \<open>>\<close> and followed, after any text (line breaks included), by a deletion link with
  a numeric id, the page splits at the first deletion link after the first occurrence of
  the value preceded by \<open>>\<close>, and \<^verbatim>\<open>get_txt_record_id\<close> returns the id of that
  link: the integer that the complete run of digits after \<open>id=\<close> denotes, when the
  run has at most 4300 digits; with more digits \<^verbatim>\<open>int\<close> raises \<^verbatim>\<open>ValueError\<close>.
  The page of two lines with \<open>TOKENVALUE\<close> and the id 12345 is the example below.
\<close>

theorem get_txt_record_id_first_link:
  "(first_link validation (srv lg (listing_get full_domain)) pre mid sep ds post
     \<longrightarrow> get_txt_record_id srv lg full_domain validation
         = (if length ds \<le> 4300 then Inr (Some (int_of_digits ds)) else Inl ValueError,
            lg @ [listing_get full_domain]))
   \<and> (link_after validation (srv lg (listing_get full_domain)) ds'
     \<longrightarrow> (\<exists>pre mid sep ds post.
            first_link validation (srv lg (listing_get full_domain)) pre mid sep ds post
            \<and> get_txt_record_id srv lg full_domain validation
                = (if length ds \<le> 4300 then Inr (Some (int_of_digits ds))
                   else Inl ValueError,
                   lg @ [listing_get full_domain])))"
proof -
  let ?body = "srv lg (listing_get full_domain)"
  have det: "get_txt_record_id srv lg full_domain validation
         = (if length ds \<le> 4300 then Inr (Some (int_of_digits ds)) else Inl ValueError,
            lg @ [listing_get full_domain])"
    if f: "first_link validation ?body pre mid sep ds post" for pre mid sep ds post
  proof -
    from f have "py_in validation ?body"
      by (intro link_after_py_in first_link_link_after)
    moreover from f have "re_search validation ?body = Some ds"
      by (rule first_link_found)
    ultimately show ?thesis by (simp add: get_txt_record_id_eq)
  qed
  have ex: "\<exists>pre mid sep ds post. first_link validation ?body pre mid sep ds post
      \<and> get_txt_record_id srv lg full_domain validation
          = (if length ds \<le> 4300 then Inr (Some (int_of_digits ds)) else Inl ValueError,
             lg @ [listing_get full_domain])"
    if "link_after validation ?body ds'"
  proof -
    from re_search_finds [OF that] obtain g where "re_search validation ?body = Some g" ..
    from re_search_first_link [OF this] obtain pre mid sep post
      where "first_link validation ?body pre mid sep g post" by blast
    with det [OF this] show ?thesis by blast
  qed
  from det ex show ?thesis by blast
qed

lemma token_listing_first_link:
  "first_link ''TOKENVALUE'' (fixed_server token_listing [] (listing_get ''apex.test''))
     ''<td'' (''</td>'' @ [CHR 0x0A] @ ''<a href=\"?'') ''&'' ''12345'' ''\">delete</a>''"
  by (simp add: first_link_def none_before_iff no_link_before_iff All_less_Suc
      fixed_server_def token_listing_def regex_defs)

theorem get_txt_record_id_first_link_witness:
  "first_link ''TOKENVALUE'' (fixed_server token_listing [] (listing_get ''apex.test''))
     ''<td'' (''</td>'' @ [CHR 0x0A] @ ''<a href=\"?'') ''&'' ''12345'' ''\">delete</a>''
   \<and> link_after ''TOKENVALUE'' (fixed_server token_listing [] (listing_get ''apex.test''))
         ''12345''
   \<and> get_txt_record_id (fixed_server token_listing) [] ''apex.test'' ''TOKENVALUE''
       = (Inr (Some 12345), [listing_get ''apex.test''])"
proof -
  have n: "int_of_digits ''12345'' = 12345" by (simp add: int_of_digits_def digit_val_def)
  have l: "length ''12345'' \<le> 4300" by simp
  from get_txt_record_id_first_link [where srv = "fixed_server token_listing" and lg = "[]"
      and full_domain = "''apex.test''" and pre = "''<td''" and validation = "''TOKENVALUE''"
      and mid = "''</td>'' @ [CHR 0x0A] @ ''<a href=\"?''" and sep = "''&''"
      and ds = "''12345''" and post = "''\">delete</a>''"]
    token_listing_first_link
  have "get_txt_record_id (fixed_server token_listing) [] ''apex.test'' ''TOKENVALUE''
       = (if length ''12345'' \<le> 4300 then Inr (Some (int_of_digits ''12345''))
          else Inl ValueError, [] @ [listing_get ''apex.test''])"
    by blast
  with n l have "get_txt_record_id (fixed_server token_listing) [] ''apex.test'' ''TOKENVALUE''
       = (Inr (Some 12345), [listing_get ''apex.test''])"
    by simp
  with token_listing_first_link first_link_link_after [OF token_listing_first_link]
  show ?thesis by blast
qed

text \<open>
  Against claim C4 as stated: on a page where the value \<open>abc123\<close> stands after
  \<open>>\<close> and is followed by the deletion link with the id 2, the id returned is 1, the
  id of the record before it, whose value \<open>abc1234\<close> begins with \<open>abc123\<close>.
\<close>

theorem get_txt_record_id_other_record:
  "shadowed_listing
     = ''<td>abc1234</td> <a href=\"?action=dns_primary_delete_txt&id=1\"> <td''
       @ ''>'' @ ''abc123'' @ ''</td> <a href=\"?'' @ delete_action @ ''&'' @ ''id='' @ ''2''
       @ ''\">''
   \<and> list_all is_digit ''2'' \<and> \<not> is_digit (hd ''\">'') \<and> int_of_digits ''2'' = 2
   \<and> get_txt_record_id (fixed_server shadowed_listing) [] ''example.com'' ''abc123''
       = (Inr (Some 1), [listing_get ''example.com''])"
  by (simp add: get_txt_record_id_eq fixed_server_def shadowed_listing_def regex_defs
      int_of_digits_def digit_val_def)

subsection \<open>When the pattern does not match\<close>

text \<open>
  Claim C5. When the listing page contains the record value but the pattern of the
  deletion link does not match anywhere in it, \<^verbatim>\<open>get_txt_record_id\<close> raises the
  exception \<open>Regex match failed\<close>; it does not return \<^verbatim>\<open>None\<close>.
\<close>

theorem value_without_link_is_parse_error:
  assumes "py_in validation (srv lg (listing_get full_domain))"
    and "\<not> pattern_matches validation (srv lg (listing_get full_domain))"
  shows "get_txt_record_id srv lg full_domain validation
           = (Inl (Exception ''Regex match failed''), lg @ [listing_get full_domain])
    \<and> fst (get_txt_record_id srv lg full_domain validation) \<noteq> Inr None"
  using assms by (simp add: get_txt_record_id_eq pattern_matches_iff regex_failed_def)

lemma changed_listing_facts:
  "py_in ''abc123'' (fixed_server changed_listing [] (listing_get ''example.com''))"
  "\<not> pattern_matches ''abc123'' (fixed_server changed_listing [] (listing_get ''example.com''))"
  by (simp_all add: pattern_matches_iff fixed_server_def changed_listing_def regex_defs)

theorem value_without_link_is_parse_error_witness:
  "py_in ''abc123'' (fixed_server changed_listing [] (listing_get ''example.com''))
   \<and> \<not> pattern_matches ''abc123''
         (fixed_server changed_listing [] (listing_get ''example.com''))
   \<and> get_txt_record_id (fixed_server changed_listing) [] ''example.com'' ''abc123''
       = (Inl (Exception ''Regex match failed''), [listing_get ''example.com''])"
  using value_without_link_is_parse_error [where srv = "fixed_server changed_listing"
      and lg = "[]" and full_domain = "''example.com''" and validation = "''abc123''"]
    changed_listing_facts
  by simp

lemma re_search_needs_gt:
  assumes "\<not> py_in (''>'' @ v) body"
  shows "re_search v body = None"
proof (cases "re_search v body")
  case (Some g)
  from re_search_sound [OF this] obtain pre mid sep post
    where "body = pre @ ''>'' @ v @ mid @ delete_action @ sep @ ''id='' @ g @ post"
    unfolding link_after_def by blast
  then have "body = pre @ (''>'' @ v) @ (mid @ delete_action @ sep @ ''id='' @ g @ post)"
    by simp
  then have "py_in (''>'' @ v) body" unfolding py_in_iff by blast
  with assms show ?thesis by simp
qed simp

text \<open>
  Claim C10. When the listing page contains the record value but never directly after
  the character \<open>>\<close>, \<^verbatim>\<open>get_txt_record_id\<close> raises the exception
  \<open>Regex match failed\<close>, also when a deletion link follows the value. A match of the
  pattern implies that the value occurs in the page; the example below shows that the
  converse fails.
\<close>

theorem value_not_after_gt_is_parse_error:
  "(py_in validation (srv lg (listing_get full_domain))
      \<and> \<not> py_in (''>'' @ validation) (srv lg (listing_get full_domain))
    \<longrightarrow> get_txt_record_id srv lg full_domain validation
          = (Inl (Exception ''Regex match failed''), lg @ [listing_get full_domain]))
   \<and> (pattern_matches validation (srv lg (listing_get full_domain))
      \<longrightarrow> py_in validation (srv lg (listing_get full_domain)))"
proof -
  have "pattern_matches validation (srv lg (listing_get full_domain))
      \<longrightarrow> py_in validation (srv lg (listing_get full_domain))"
    unfolding pattern_matches_def using link_after_py_in by blast
  moreover have "get_txt_record_id srv lg full_domain validation
          = (Inl (Exception ''Regex match failed''), lg @ [listing_get full_domain])"
    if "py_in validation (srv lg (listing_get full_domain))"
      and "\<not> py_in (''>'' @ validation) (srv lg (listing_get full_domain))"
    using that(1) re_search_needs_gt [OF that(2)]
    by (simp add: get_txt_record_id_eq regex_failed_def)
  ultimately show ?thesis by blast
qed

lemma unanchored_listing_facts:
  "py_in ''abc123'' (fixed_server unanchored_listing [] (listing_get ''example.com''))"
  "\<not> py_in (''>'' @ ''abc123'')
       (fixed_server unanchored_listing [] (listing_get ''example.com''))"
  "\<not> pattern_matches ''abc123''
       (fixed_server unanchored_listing [] (listing_get ''example.com''))"
  by (simp_all add: pattern_matches_iff fixed_server_def unanchored_listing_def regex_defs)

theorem value_not_after_gt_is_parse_error_witness:
  "py_in ''abc123'' (fixed_server unanchored_listing [] (listing_get ''example.com''))
   \<and> \<not> py_in (''>'' @ ''abc123'')
         (fixed_server unanchored_listing [] (listing_get ''example.com''))
   \<and> py_in (delete_action @ ''&id=7'') unanchored_listing
   \<and> get_txt_record_id (fixed_server unanchored_listing) [] ''example.com'' ''abc123''
       = (Inl (Exception ''Regex match failed''), [listing_get ''example.com''])
   \<and> \<not> pattern_matches ''abc123''
         (fixed_server unanchored_listing [] (listing_get ''example.com''))"
proof -
  have "py_in (delete_action @ ''&id=7'') unanchored_listing"
    by (simp add: unanchored_listing_def delete_action_def)
  with value_not_after_gt_is_parse_error [of "''abc123''" "fixed_server unanchored_listing" "[]"
      "''example.com''"] unanchored_listing_facts
  show ?thesis by simp
qed

subsection \<open>The failures are told apart\<close>

lemma rpartition_no_error: "rpartition s (''.'' @ d) \<noteq> Inl e"
  by (simp add: rpartition_def split: option.splits)

lemma add_txt_record_result:
  "fst (add_txt_record c srv lg d vdn v) =
     (if \<not> py_in (username c) (profile_response c srv lg)
      then Inl (login_failed (username c))
      else if \<not> py_in d (domains_response c srv lg)
      then Inl (domain_not_found d (username c))
      else if \<not> endswith vdn (''.'' @ d) then Inl AssertionError
      else Inr ())"
  using rpartition_no_error [of vdn d]
  by (simp add: add_txt_record_def login_eq check_domain_eq session_request_def
      split: sum.splits prod.splits)

lemma get_txt_record_id_result:
  "fst (get_txt_record_id srv (lg @ [login_post c, profile_get, domains_get]) d v) =
     (if \<not> py_in v (listing_response c srv lg d) then Inr None
      else case re_search v (listing_response c srv lg d) of
             None \<Rightarrow> Inl regex_failed
           | Some g \<Rightarrow> if length g \<le> 4300 then Inr (Some (int_of_digits g))
                      else Inl ValueError)"
  "snd (get_txt_record_id srv (lg @ [login_post c, profile_get, domains_get]) d v)
     = lg @ [login_post c, profile_get, domains_get, listing_get d]"
  by (simp_all add: get_txt_record_id_eq listing_response_def)

lemma del_txt_record_result:
  "fst (del_txt_record c srv lg d vdn v) =
     (if \<not> py_in (username c) (profile_response c srv lg)
      then Inl (login_failed (username c))
      else if \<not> py_in d (domains_response c srv lg)
      then Inl (domain_not_found d (username c))
      else if \<not> endswith vdn (''.'' @ d) then Inl AssertionError
      else if \<not> py_in v (listing_response c srv lg d) then Inr ()
      else case re_search v (listing_response c srv lg d) of
             None \<Rightarrow> Inl regex_failed
           | Some g \<Rightarrow>
               if \<not> length g \<le> 4300 then Inl ValueError
               else if \<not> py_in ''Record was deleted''
                         (delete_response c srv lg d (int_of_digits g))
               then Inl not_deleted else Inr ())"
proof -
  obtain r lg3 where g: "get_txt_record_id srv (lg @ [login_post c, profile_get, domains_get])
      d v = (r, lg3)"
    by (cases "get_txt_record_id srv (lg @ [login_post c, profile_get, domains_get]) d v")
  from g get_txt_record_id_result [of srv lg c d v]
  have r: "r = (if \<not> py_in v (listing_response c srv lg d) then Inr None
      else case re_search v (listing_response c srv lg d) of
             None \<Rightarrow> Inl regex_failed
           | Some g \<Rightarrow> if length g \<le> 4300 then Inr (Some (int_of_digits g))
                      else Inl ValueError)"
    and l: "lg3 = lg @ [login_post c, profile_get, domains_get, listing_get d]"
    by simp_all
  show ?thesis
    by (simp add: del_txt_record_def login_eq check_domain_eq g r l session_request_def
        success_marker_def delete_response_def split: option.splits)
qed

text \<open>
  Claim C9. The exceptions raised for a rejected login, a missing domain, a failed
  pattern match, an unconfirmed deletion and a violated precondition are five different
  values, for every username and domain: the first four are \<^verbatim>\<open>Exception\<close> with
  four different messages, the fifth is \<^verbatim>\<open>AssertionError\<close>. Each reaches the caller
  of \<^verbatim>\<open>add_txt_record\<close> and \<^verbatim>\<open>del_txt_record\<close> unchanged under its own condition:
  the profile response lacks the username; the domain listing lacks the domain; the
  validation name lacks the suffix; the listing has the value but not the pattern; the
  deletion response lacks the success text. Every exception that \<^verbatim>\<open>add_txt_record\<close>
  raises is one of the first, second and fifth, and every exception that
  \<^verbatim>\<open>del_txt_record\<close> raises is one of the five or the \<^verbatim>\<open>ValueError\<close> that
  \<^verbatim>\<open>int\<close> raises on an id of more than 4300 digits.
\<close>

theorem failures_surface_distinct:
  "distinct [login_failed user, domain_not_found full_domain user', regex_failed, not_deleted,
             AssertionError]
   \<and> (\<not> py_in (username c) (profile_response c srv lg)
      \<longrightarrow> fst (add_txt_record c srv lg d validation_domain_name validation)
            = Inl (login_failed (username c))
          \<and> fst (del_txt_record c srv lg d validation_domain_name validation)
            = Inl (login_failed (username c)))
   \<and> (py_in (username c) (profile_response c srv lg)
        \<and> \<not> py_in d (domains_response c srv lg)
      \<longrightarrow> fst (add_txt_record c srv lg d validation_domain_name validation)
            = Inl (domain_not_found d (username c))
          \<and> fst (del_txt_record c srv lg d validation_domain_name validation)
            = Inl (domain_not_found d (username c)))
   \<and> (py_in (username c) (profile_response c srv lg) \<and> py_in d (domains_response c srv lg)
        \<and> \<not> endswith validation_domain_name (''.'' @ d)
      \<longrightarrow> fst (add_txt_record c srv lg d validation_domain_name validation)
            = Inl AssertionError
          \<and> fst (del_txt_record c srv lg d validation_domain_name validation)
            = Inl AssertionError)
   \<and> (py_in (username c) (profile_response c srv lg) \<and> py_in d (domains_response c srv lg)
        \<and> endswith validation_domain_name (''.'' @ d)
        \<and> py_in validation (listing_response c srv lg d)
        \<and> \<not> pattern_matches validation (listing_response c srv lg d)
      \<longrightarrow> fst (del_txt_record c srv lg d validation_domain_name validation)
            = Inl regex_failed)
   \<and> (py_in (username c) (profile_response c srv lg) \<and> py_in d (domains_response c srv lg)
        \<and> endswith validation_domain_name (''.'' @ d)
        \<and> first_link validation (listing_response c srv lg d) pre mid sep ds post
        \<and> length ds \<le> 4300
        \<and> \<not> py_in ''Record was deleted'' (delete_response c srv lg d (int_of_digits ds))
      \<longrightarrow> fst (del_txt_record c srv lg d validation_domain_name validation)
            = Inl not_deleted)
   \<and> (py_in (username c) (profile_response c srv lg) \<and> py_in d (domains_response c srv lg)
        \<and> endswith validation_domain_name (''.'' @ d)
        \<and> first_link validation (listing_response c srv lg d) pre mid sep ds post
        \<and> 4300 < length ds
      \<longrightarrow> fst (del_txt_record c srv lg d validation_domain_name validation)
            = Inl ValueError)
   \<and> (fst (add_txt_record c srv lg d validation_domain_name validation) = Inl e
      \<longrightarrow> e \<in> {login_failed (username c), domain_not_found d (username c), AssertionError})
   \<and> (fst (del_txt_record c srv lg d validation_domain_name validation) = Inl e'
      \<longrightarrow> e' \<in> {login_failed (username c), domain_not_found d (username c), AssertionError,
                 regex_failed, not_deleted, ValueError})"
proof -
  let ?add = "fst (add_txt_record c srv lg d validation_domain_name validation)"
  let ?del = "fst (del_txt_record c srv lg d validation_domain_name validation)"
  let ?P = "py_in (username c) (profile_response c srv lg)"
  let ?D = "py_in d (domains_response c srv lg)"
  let ?E = "endswith validation_domain_name (''.'' @ d)"
  let ?L = "listing_response c srv lg d"
  have c0: "distinct [login_failed user, domain_not_found full_domain user', regex_failed,
                  not_deleted, AssertionError]"
    by (simp add: login_failed_def domain_not_found_def regex_failed_def not_deleted_def)
  have c1: "\<not> ?P \<longrightarrow> ?add = Inl (login_failed (username c))
      \<and> ?del = Inl (login_failed (username c))"
    by (simp add: add_txt_record_result del_txt_record_result)
  have c2: "?P \<and> \<not> ?D \<longrightarrow> ?add = Inl (domain_not_found d (username c))
      \<and> ?del = Inl (domain_not_found d (username c))"
    by (simp add: add_txt_record_result del_txt_record_result)
  have c3: "?P \<and> ?D \<and> \<not> ?E \<longrightarrow> ?add = Inl AssertionError \<and> ?del = Inl AssertionError"
    by (simp add: add_txt_record_result del_txt_record_result)
  have c4: "?P \<and> ?D \<and> ?E \<and> py_in validation ?L \<and> \<not> pattern_matches validation ?L
      \<longrightarrow> ?del = Inl regex_failed"
    by (simp add: del_txt_record_result pattern_matches_iff)
  have c5: "?P \<and> ?D \<and> ?E \<and> first_link validation ?L pre mid sep ds post
        \<and> length ds \<le> 4300
        \<and> \<not> py_in ''Record was deleted'' (delete_response c srv lg d (int_of_digits ds))
      \<longrightarrow> ?del = Inl not_deleted"
  proof (intro impI, elim conjE)
    assume a: ?P ?D ?E "length ds \<le> 4300"
      "\<not> py_in ''Record was deleted'' (delete_response c srv lg d (int_of_digits ds))"
      and f: "first_link validation ?L pre mid sep ds post"
    from f have "py_in validation ?L"
      by (intro link_after_py_in first_link_link_after)
    moreover from f have "re_search validation ?L = Some ds" by (rule first_link_found)
    ultimately show "?del = Inl not_deleted"
      using a by (simp add: del_txt_record_result)
  qed
  have c5': "?P \<and> ?D \<and> ?E \<and> first_link validation ?L pre mid sep ds post
        \<and> 4300 < length ds
      \<longrightarrow> ?del = Inl ValueError"
  proof (intro impI, elim conjE)
    assume a: ?P ?D ?E "4300 < length ds"
      and f: "first_link validation ?L pre mid sep ds post"
    from f have "py_in validation ?L"
      by (intro link_after_py_in first_link_link_after)
    moreover from f have "re_search validation ?L = Some ds" by (rule first_link_found)
    ultimately show "?del = Inl ValueError"
      using a by (simp add: del_txt_record_result)
  qed
  have c6: "?add = Inl e
      \<longrightarrow> e \<in> {login_failed (username c), domain_not_found d (username c), AssertionError}"
    by (auto simp: add_txt_record_result split: if_splits)
  have c7: "?del = Inl e'
      \<longrightarrow> e' \<in> {login_failed (username c), domain_not_found d (username c), AssertionError,
                 regex_failed, not_deleted, ValueError}"
    by (auto simp: del_txt_record_result split: if_splits option.splits)
  from c0 c1 c2 c3 c4 c5 c5' c6 c7 show ?thesis by (intro conjI)
qed

lemma other_profile: "\<not> py_in (username other_client) (profile_response other_client demo_server [])"
  by (simp add: profile_response_def demo_server_def other_client_def)

lemma demo_other_domain: "\<not> py_in ''example.org'' (domains_response demo_client demo_server [])"
  by (simp add: domains_response_def demo_server_def request_defs)

lemma fixed_responses:
  "py_in (username demo_client) (profile_response demo_client (fixed_server body) []) = py_in ''alice'' body"
  "domains_response demo_client (fixed_server body) [] = body"
  "listing_response demo_client (fixed_server body) [] d = body"
  by (simp_all add: profile_response_def domains_response_def listing_response_def
      fixed_server_def demo_client_def)

lemma changed_page_facts:
  "py_in (username demo_client)
     (profile_response demo_client (fixed_server ''alice example.com abc123'') [])"
  "py_in ''example.com'' (domains_response demo_client (fixed_server ''alice example.com abc123'') [])"
  "py_in ''abc123''
     (listing_response demo_client (fixed_server ''alice example.com abc123'') [] ''example.com'')"
  "\<not> pattern_matches ''abc123''
     (listing_response demo_client (fixed_server ''alice example.com abc123'') [] ''example.com'')"
  by (simp_all add: fixed_responses pattern_matches_iff regex_defs)

lemma refusing_responses:
  "py_in (username demo_client) (profile_response demo_client refusing_server [])"
  "py_in ''example.com'' (domains_response demo_client refusing_server [])"
  "\<not> py_in ''Record was deleted''
      (delete_response demo_client refusing_server [] ''example.com'' (int_of_digits ''99''))"
  by (simp_all add: profile_response_def domains_response_def delete_response_def
      refusing_server_def demo_server_def demo_client_def request_defs)

lemma refusing_first_link:
  "first_link ''abc123'' (listing_response demo_client refusing_server [] ''example.com'')
     ''<td'' ''</td> <a href=\"?'' ''&amp;'' ''99'' ''\">''"
  by (simp add: first_link_def none_before_iff no_link_before_iff All_less_Suc
      listing_response_def refusing_server_def demo_server_def demo_listing_def request_defs
      regex_defs)

theorem failures_surface_distinct_witness:
  "fst (add_txt_record other_client demo_server [] ''example.com''
          ''_acme-challenge.example.com'' ''abc123'') = Inl (login_failed ''mallory'')
   \<and> fst (del_txt_record demo_client demo_server [] ''example.org''
          ''_acme-challenge.example.org'' ''abc123'')
       = Inl (domain_not_found ''example.org'' ''alice'')
   \<and> fst (add_txt_record demo_client demo_server [] ''example.com''
          ''_acme-challenge.example.org'' ''abc123'') = Inl AssertionError
   \<and> fst (del_txt_record demo_client (fixed_server ''alice example.com abc123'') []
          ''example.com'' ''_acme-challenge.example.com'' ''abc123'') = Inl regex_failed
   \<and> fst (del_txt_record demo_client refusing_server [] ''example.com''
          ''_acme-challenge.example.com'' ''abc123'') = Inl not_deleted
   \<and> distinct [login_failed ''mallory'', domain_not_found ''example.org'' ''alice'',
               regex_failed, not_deleted, AssertionError]"
proof -
  have k1: "fst (add_txt_record other_client demo_server [] ''example.com''
          ''_acme-challenge.example.com'' ''abc123'') = Inl (login_failed ''mallory'')"
    using failures_surface_distinct [where c = other_client and srv = demo_server
        and lg = "[]" and d = "''example.com''"
        and validation_domain_name = "''_acme-challenge.example.com''"
        and validation = "''abc123''"] other_profile
    by (simp add: other_client_def)
  have k2: "fst (del_txt_record demo_client demo_server [] ''example.org''
          ''_acme-challenge.example.org'' ''abc123'')
       = Inl (domain_not_found ''example.org'' ''alice'')"
    using failures_surface_distinct [where c = demo_client and srv = demo_server
        and lg = "[]" and d = "''example.org''"
        and validation_domain_name = "''_acme-challenge.example.org''"
        and validation = "''abc123''"] demo_responses(1) demo_other_domain
    by (simp add: demo_client_def)
  have k3: "fst (add_txt_record demo_client demo_server [] ''example.com''
          ''_acme-challenge.example.org'' ''abc123'') = Inl AssertionError"
    using failures_surface_distinct [where c = demo_client and srv = demo_server
        and lg = "[]" and d = "''example.com''"
        and validation_domain_name = "''_acme-challenge.example.org''"
        and validation = "''abc123''"] demo_responses demo_not_endswith
    by simp
  have k4: "fst (del_txt_record demo_client (fixed_server ''alice example.com abc123'') []
          ''example.com'' ''_acme-challenge.example.com'' ''abc123'') = Inl regex_failed"
    using failures_surface_distinct [where c = demo_client
        and srv = "fixed_server ''alice example.com abc123''"
        and lg = "[]" and d = "''example.com''"
        and validation_domain_name = "''_acme-challenge.example.com''"
        and validation = "''abc123''"] changed_page_facts demo_endswith
    by simp
  have k5: "fst (del_txt_record demo_client refusing_server [] ''example.com''
          ''_acme-challenge.example.com'' ''abc123'') = Inl not_deleted"
    using failures_surface_distinct [where c = demo_client and srv = refusing_server
        and lg = "[]" and d = "''example.com''"
        and validation_domain_name = "''_acme-challenge.example.com''"
        and validation = "''abc123''" and pre = "''<td''" and mid = "''</td> <a href=\"?''"
        and sep = "''&amp;''" and ds = "''99''" and post = "''\">''"]
      refusing_responses refusing_first_link demo_endswith
    by simp
  have k6: "distinct [login_failed ''mallory'', domain_not_found ''example.org'' ''alice'',
               regex_failed, not_deleted, AssertionError]"
    using failures_surface_distinct [where user = "''mallory''"
        and full_domain = "''example.org''" and user' = "''alice''"]
    by blast
  from k1 k2 k3 k4 k5 k6 show ?thesis by (intro conjI)
qed

end
